theory Spec2Isabelle
  imports Main
begin

section \<open>JavaScript values\<close>

text \<open>
  schema.ts takes \<^verbatim>\<open>data: unknown\<close>, inspects it with \<^verbatim>\<open>typeof\<close>, \<^verbatim>\<open>Array.isArray\<close>
  and property reads, and assigns to a property of one of its objects. Values are
  therefore primitives or references into a store of objects and arrays, so that two
  references to one object see each other's writes. A number is only ever tested for
  its type and for being falsy (zero), so integers stand for numbers.
\<close>

datatype val = Undefined | Null | Bool bool | Number int | Str string | Ref nat

datatype cell = Object "(string \<times> val) list" | Array "val list"

type_synonym heap = "cell list"

datatype jstype = TUndefined | TObject | TBoolean | TNumber | TString

fun typeof :: "val \<Rightarrow> jstype" where
  "typeof Undefined = TUndefined"
| "typeof Null = TObject"
| "typeof (Bool _) = TBoolean"
| "typeof (Number _) = TNumber"
| "typeof (Str _) = TString"
| "typeof (Ref _) = TObject"

fun truthy :: "val \<Rightarrow> bool" where
  "truthy Undefined = False"
| "truthy Null = False"
| "truthy (Bool b) = b"
| "truthy (Number n) = (n \<noteq> 0)"
| "truthy (Str s) = (s \<noteq> [])"
| "truthy (Ref _) = True"

definition lookup :: "heap \<Rightarrow> nat \<Rightarrow> cell option" where
  "lookup h a = (if a < length h then Some (h ! a) else None)"

text \<open>
  \<^verbatim>\<open>v.k\<close>: the property of an object, \<^verbatim>\<open>undefined\<close> when the object has none of that
  name. The names read by the sources are never own properties of an array or of a
  primitive, so the read gives \<^verbatim>\<open>undefined\<close> there. A read of \<^verbatim>\<open>null\<close> or
  \<^verbatim>\<open>undefined\<close> throws in JavaScript: the sources guard against it nearly everywhere,
  and where they do not, the function that reads has the throw as a branch of its own.
\<close>

definition get :: "heap \<Rightarrow> val \<Rightarrow> string \<Rightarrow> val" where
  "get h v k =
     (case v of
        Ref a \<Rightarrow>
          (case lookup h a of
             Some (Object fs) \<Rightarrow> (case map_of fs k of Some x \<Rightarrow> x | None \<Rightarrow> Undefined)
           | _ \<Rightarrow> Undefined)
      | _ \<Rightarrow> Undefined)"

text \<open>\<^verbatim>\<open>k in v\<close> for an object \<^verbatim>\<open>v\<close>.\<close>

definition has :: "heap \<Rightarrow> val \<Rightarrow> string \<Rightarrow> bool" where
  "has h v k =
     (case v of
        Ref a \<Rightarrow>
          (case lookup h a of
             Some (Object fs) \<Rightarrow> k \<in> set (map fst fs)
           | _ \<Rightarrow> False)
      | _ \<Rightarrow> False)"

definition isArray :: "heap \<Rightarrow> val \<Rightarrow> bool" where
  "isArray h v =
     (case v of
        Ref a \<Rightarrow> (case lookup h a of Some (Array _) \<Rightarrow> True | _ \<Rightarrow> False)
      | _ \<Rightarrow> False)"

text \<open>The elements of an array, in order; used only where \<open>isArray\<close> holds.\<close>

definition elems :: "heap \<Rightarrow> val \<Rightarrow> val list" where
  "elems h v =
     (case v of
        Ref a \<Rightarrow> (case lookup h a of Some (Array xs) \<Rightarrow> xs | _ \<Rightarrow> [])
      | _ \<Rightarrow> [])"

text \<open>\<^verbatim>\<open>[v1, ..., vn]\<close>: a new array, at an address not in use.\<close>

definition new_array :: "heap \<Rightarrow> val list \<Rightarrow> val \<times> heap" where
  "new_array h xs = (Ref (length h), h @ [Array xs])"

text \<open>
  \<^verbatim>\<open>v.k = x\<close>: the property keeps its place among the object's properties when it
  exists and is added at the end otherwise.
\<close>

fun assign :: "string \<Rightarrow> val \<Rightarrow> (string \<times> val) list \<Rightarrow> (string \<times> val) list" where
  "assign k x [] = [(k, x)]"
| "assign k x ((k', x') # fs) = (if k' = k then (k, x) # fs else (k', x') # assign k x fs)"

definition put :: "heap \<Rightarrow> val \<Rightarrow> string \<Rightarrow> val \<Rightarrow> heap" where
  "put h v k x =
     (case v of
        Ref a \<Rightarrow>
          (case lookup h a of
             Some (Object fs) \<Rightarrow> h[a := Object (assign k x fs)]
           | _ \<Rightarrow> h)
      | _ \<Rightarrow> h)"

text \<open>
  \<^verbatim>\<open>xs.includes(v)\<close> for a list of string constants: only a string can be among them.
\<close>

definition array_includes :: "string list \<Rightarrow> val \<Rightarrow> bool" where
  "array_includes xs v = (case v of Str s \<Rightarrow> s \<in> set xs | _ \<Rightarrow> False)"

section \<open>schema.ts\<close>

text \<open>
  Every \<^verbatim>\<open>throw new Error(...)\<close> of schema.ts is one constructor, with the values its
  message interpolates. \<open>error_context\<close> is the prefix the callers of \<open>validateMediaBlock\<close>
  and \<open>validateCodeBlock\<close> pass: \<^verbatim>\<open>Question "id"\<close>, \<^verbatim>\<open>Question "id" media[m]\<close> and
  \<^verbatim>\<open>Question "id" option "label"\<close>.
\<close>

datatype error_context =
    OfQuestion val
  | OfMedia val nat
  | OfOption val val

datatype media_problem =
    MediaNotObject | MediaType | MediaSrc | MediaChart | MediaChartType | MediaChartData
  | MediaMermaid | MediaTable | MediaTableHeaders | MediaTableRows | MediaHtml
  | MediaPosition

datatype code_problem =
    CodeBlockNotObject | CodeNotString | LangNotString | FileNotString | LinesNotString
  | TitleNotString | HighlightsNotNumbers

datatype schema_error =
    MediaError error_context media_problem
  | CodeBlockError error_context code_problem
  | OptionLabelNotString val nat
  | OptionNotStringOrObject val nat
  | RootIsArray
  | RootNotObject
  | MissingQuestionsArray
  | FileTitleNotString
  | FileDescriptionNotString
  | QuestionsNotNonEmptyArray
  | QuestionNotObject nat
  | IdNotString nat
  | TypeNotValid val bool
  | QuestionNotString val bool
  | OptionsNotNonEmptyArray val
  | ContextNotString val
  | ConvictionNotValid val
  | WeightNotValid val
  | DuplicateId val
  | OptionsRequired val val
  | OptionsNotAllowed val val
  | ConvictionRequiresRecommended val
  | RecommendedNotAllowed val val
  | RecommendedNotString val
  | RecommendedNotInOptions val val

text \<open>
  A \<^verbatim>\<open>for\<close> loop whose body either throws or goes on to the next index.
\<close>

fun each :: "('a \<Rightarrow> nat \<Rightarrow> 'e + 'b) \<Rightarrow> 'a list \<Rightarrow> nat \<Rightarrow> 'e + unit" where
  "each body [] i = Inr ()"
| "each body (x # xs) i =
     (case body x i of Inl e \<Rightarrow> Inl e | Inr _ \<Rightarrow> each body xs (Suc i))"

definition validMediaTypes :: "string list" where
  "validMediaTypes = [''image'', ''chart'', ''mermaid'', ''table'', ''html'']"

definition validPositions :: "string list" where
  "validPositions = [''above'', ''below'', ''side'']"

definition validateMediaBlock :: "heap \<Rightarrow> val \<Rightarrow> error_context \<Rightarrow> schema_error + val" where
  "validateMediaBlock h block ctx =
     (if \<not> truthy block \<or> typeof block \<noteq> TObject then Inl (MediaError ctx MediaNotObject)
      else
        let b = block; chart = get h b ''chart''; table = get h b ''table'' in
        if typeof (get h b ''type'') \<noteq> TString \<or> \<not> array_includes validMediaTypes (get h b ''type'')
        then Inl (MediaError ctx MediaType)
        else if get h b ''type'' = Str ''image'' \<and> typeof (get h b ''src'') \<noteq> TString
        then Inl (MediaError ctx MediaSrc)
        else if get h b ''type'' = Str ''chart'' \<and> (\<not> truthy chart \<or> typeof chart \<noteq> TObject)
        then Inl (MediaError ctx MediaChart)
        else if get h b ''type'' = Str ''chart'' \<and> typeof (get h chart ''type'') \<noteq> TString
        then Inl (MediaError ctx MediaChartType)
        else if get h b ''type'' = Str ''chart'' \<and>
                (\<not> truthy (get h chart ''data'') \<or> typeof (get h chart ''data'') \<noteq> TObject)
        then Inl (MediaError ctx MediaChartData)
        else if get h b ''type'' = Str ''mermaid'' \<and> typeof (get h b ''mermaid'') \<noteq> TString
        then Inl (MediaError ctx MediaMermaid)
        else if get h b ''type'' = Str ''table'' \<and> (\<not> truthy table \<or> typeof table \<noteq> TObject)
        then Inl (MediaError ctx MediaTable)
        else if get h b ''type'' = Str ''table'' \<and> \<not> isArray h (get h table ''headers'')
        then Inl (MediaError ctx MediaTableHeaders)
        else if get h b ''type'' = Str ''table'' \<and> \<not> isArray h (get h table ''rows'')
        then Inl (MediaError ctx MediaTableRows)
        else if get h b ''type'' = Str ''html'' \<and> typeof (get h b ''html'') \<noteq> TString
        then Inl (MediaError ctx MediaHtml)
        else if get h b ''position'' \<noteq> Undefined \<and>
                \<not> array_includes validPositions (get h b ''position'')
        then Inl (MediaError ctx MediaPosition)
        else Inr b)"

definition validateCodeBlock :: "heap \<Rightarrow> val \<Rightarrow> error_context \<Rightarrow> schema_error + val" where
  "validateCodeBlock h block ctx =
     (if \<not> truthy block \<or> typeof block \<noteq> TObject
      then Inl (CodeBlockError ctx CodeBlockNotObject)
      else
        let b = block in
        if typeof (get h b ''code'') \<noteq> TString
        then Inl (CodeBlockError ctx CodeNotString)
        else if get h b ''lang'' \<noteq> Undefined \<and> typeof (get h b ''lang'') \<noteq> TString
        then Inl (CodeBlockError ctx LangNotString)
        else if get h b ''file'' \<noteq> Undefined \<and> typeof (get h b ''file'') \<noteq> TString
        then Inl (CodeBlockError ctx FileNotString)
        else if get h b ''lines'' \<noteq> Undefined \<and> typeof (get h b ''lines'') \<noteq> TString
        then Inl (CodeBlockError ctx LinesNotString)
        else if get h b ''title'' \<noteq> Undefined \<and> typeof (get h b ''title'') \<noteq> TString
        then Inl (CodeBlockError ctx TitleNotString)
        else if get h b ''highlights'' \<noteq> Undefined \<and>
                (\<not> isArray h (get h b ''highlights'') \<or>
                 list_ex (\<lambda>x. typeof x \<noteq> TNumber) (elems h (get h b ''highlights'')))
        then Inl (CodeBlockError ctx HighlightsNotNumbers)
        else Inr b)"

definition validateOption :: "heap \<Rightarrow> val \<Rightarrow> val \<Rightarrow> nat \<Rightarrow> schema_error + val" where
  "validateOption h option questionId index =
     (if typeof option = TString then Inr option
      else if truthy option \<and> typeof option = TObject then
        let ob = option in
        if typeof (get h ob ''label'') \<noteq> TString
        then Inl (OptionLabelNotString questionId index)
        else if get h ob ''code'' \<noteq> Undefined then
          (case validateCodeBlock h (get h ob ''code'') (OfOption questionId (get h ob ''label'')) of
             Inl e \<Rightarrow> Inl e
           | Inr _ \<Rightarrow> Inr option)
        else Inr option
      else Inl (OptionNotStringOrObject questionId index))"

definition validTypes :: "string list" where
  "validTypes = [''single'', ''multi'', ''text'', ''image'', ''info'']"

definition validConvictions :: "string list" where
  "validConvictions = [''strong'', ''slight'']"

definition validWeights :: "string list" where
  "validWeights = [''critical'', ''minor'']"

text \<open>
  The body of the loop of \<^verbatim>\<open>validateBasicStructure\<close> over \<^verbatim>\<open>obj.questions\<close>, for the
  question \<open>q\<close> at index \<open>i\<close>.
\<close>

definition question_structure :: "heap \<Rightarrow> val \<Rightarrow> nat \<Rightarrow> schema_error + unit" where
  "question_structure h q i =
     (if \<not> truthy q \<or> typeof q \<noteq> TObject then Inl (QuestionNotObject i)
      else if typeof (get h q ''id'') \<noteq> TString then Inl (IdNotString i)
      else if typeof (get h q ''type'') \<noteq> TString \<or>
              \<not> array_includes validTypes (get h q ''type'')
      then Inl (TypeNotValid (get h q ''id'') (get h q ''type'' = Str ''select''))
      else if typeof (get h q ''question'') \<noteq> TString
      then Inl (QuestionNotString (get h q ''id'')
                  (has h q ''label'' \<or> has h q ''description''))
      else
        (case (if get h q ''options'' \<noteq> Undefined then
                 (if \<not> isArray h (get h q ''options'') \<or>
                     length (elems h (get h q ''options'')) = 0
                  then Inl (OptionsNotNonEmptyArray (get h q ''id''))
                  else each (\<lambda>opt j. validateOption h opt (get h q ''id'') j)
                         (elems h (get h q ''options'')) 0)
               else Inr ()) of
           Inl e \<Rightarrow> Inl e
         | Inr _ \<Rightarrow>
           if get h q ''context'' \<noteq> Undefined \<and> typeof (get h q ''context'') \<noteq> TString
           then Inl (ContextNotString (get h q ''id''))
           else
             (case (if get h q ''codeBlock'' \<noteq> Undefined
                    then validateCodeBlock h (get h q ''codeBlock'') (OfQuestion (get h q ''id''))
                    else Inr Undefined) of
                Inl e \<Rightarrow> Inl e
              | Inr _ \<Rightarrow>
                if get h q ''conviction'' \<noteq> Undefined \<and>
                   (typeof (get h q ''conviction'') \<noteq> TString \<or>
                    \<not> array_includes validConvictions (get h q ''conviction''))
                then Inl (ConvictionNotValid (get h q ''id''))
                else if get h q ''weight'' \<noteq> Undefined \<and>
                   (typeof (get h q ''weight'') \<noteq> TString \<or>
                    \<not> array_includes validWeights (get h q ''weight''))
                then Inl (WeightNotValid (get h q ''id''))
                else if get h q ''media'' \<noteq> Undefined then
                  each (\<lambda>item m. validateMediaBlock h item (OfMedia (get h q ''id'') m))
                    (if isArray h (get h q ''media'') then elems h (get h q ''media'')
                     else [get h q ''media''])
                    0
                else Inr ())))"

definition validateBasicStructure :: "heap \<Rightarrow> val \<Rightarrow> schema_error + val" where
  "validateBasicStructure h data =
     (if isArray h data then Inl RootIsArray
      else if \<not> truthy data \<or> typeof data \<noteq> TObject then Inl RootNotObject
      else
        let obj = data in
        if (has h obj ''label'' \<or> has h obj ''description'') \<and> \<not> has h obj ''questions''
        then Inl MissingQuestionsArray
        else if get h obj ''title'' \<noteq> Undefined \<and> typeof (get h obj ''title'') \<noteq> TString
        then Inl FileTitleNotString
        else if get h obj ''description'' \<noteq> Undefined \<and>
                typeof (get h obj ''description'') \<noteq> TString
        then Inl FileDescriptionNotString
        else if \<not> isArray h (get h obj ''questions'') \<or>
                length (elems h (get h obj ''questions'')) = 0
        then Inl QuestionsNotNonEmptyArray
        else
          (case each (question_structure h) (elems h (get h obj ''questions'')) 0 of
             Inl e \<Rightarrow> Inl e
           | Inr _ \<Rightarrow> Inr obj))"

text \<open>
  The first loop of \<^verbatim>\<open>validateQuestions\<close>: \<^verbatim>\<open>ids\<close> is the set of the ids seen so far.
\<close>

fun unique_ids :: "heap \<Rightarrow> val list \<Rightarrow> val set \<Rightarrow> schema_error + unit" where
  "unique_ids h [] ids = Inr ()"
| "unique_ids h (q # qs) ids =
     (if get h q ''id'' \<in> ids then Inl (DuplicateId (get h q ''id''))
      else unique_ids h qs (insert (get h q ''id'') ids))"

text \<open>
  \<^verbatim>\<open>export function getOptionLabel(option) {
    return typeof option === "string" ? option : option.label; }\<close>
\<close>

definition getOptionLabel :: "heap \<Rightarrow> val \<Rightarrow> val" where
  "getOptionLabel h option = (if typeof option = TString then option else get h option ''label'')"

text \<open>
  The body of the second loop of \<^verbatim>\<open>validateQuestions\<close>. It is the one place that
  writes: \<^verbatim>\<open>q.recommended = recs\<close> stores a new one-element array in the question
  object itself. \<^verbatim>\<open>q.options\<close> is here either undefined or a non-empty array, which is
  what \<^verbatim>\<open>validateBasicStructure\<close> let through, so \<^verbatim>\<open>q.options.length\<close> is read from an
  array.
\<close>

definition question_semantics :: "heap \<Rightarrow> val \<Rightarrow> schema_error + heap" where
  "question_semantics h q =
     (let qtype = get h q ''type''; options = get h q ''options'';
          recommended = get h q ''recommended''; qid = get h q ''id'';
          passive = (qtype = Str ''text'' \<or> qtype = Str ''image'' \<or> qtype = Str ''info'')
      in
      if (qtype = Str ''single'' \<or> qtype = Str ''multi'') \<and>
         (\<not> truthy options \<or> (isArray h options \<and> length (elems h options) = 0))
      then Inl (OptionsRequired qid qtype)
      else if \<not> (qtype = Str ''single'' \<or> qtype = Str ''multi'') \<and> passive \<and> truthy options
      then Inl (OptionsNotAllowed qid qtype)
      else if get h q ''conviction'' \<noteq> Undefined \<and> recommended = Undefined
      then Inl (ConvictionRequiresRecommended qid)
      else if recommended \<noteq> Undefined then
        if passive then Inl (RecommendedNotAllowed qid qtype)
        else
          let optionLabels =
                (if options = Undefined \<or> options = Null then []
                 else map (getOptionLabel h) (elems h options))
          in
          if qtype = Str ''single'' \<and> typeof recommended \<noteq> TString
          then Inl (RecommendedNotString qid)
          else if qtype = Str ''single'' \<and> recommended \<notin> set optionLabels
          then Inl (RecommendedNotInOptions qid recommended)
          else if qtype = Str ''multi'' then
            let recs = (if isArray h recommended then elems h recommended else [recommended])
            in
            (case find (\<lambda>rec. rec \<notin> set optionLabels) recs of
               Some rec \<Rightarrow> Inl (RecommendedNotInOptions qid rec)
             | None \<Rightarrow>
               if \<not> isArray h recommended
               then (case new_array h recs of (r, h1) \<Rightarrow> Inr (put h1 q ''recommended'' r))
               else Inr h)
          else Inr h
      else Inr h)"

fun check_questions :: "heap \<Rightarrow> val list \<Rightarrow> schema_error + heap" where
  "check_questions h [] = Inr h"
| "check_questions h (q # qs) =
     (case question_semantics h q of Inl e \<Rightarrow> Inl e | Inr h' \<Rightarrow> check_questions h' qs)"

text \<open>
  \<^verbatim>\<open>validateQuestions\<close> returns \<^verbatim>\<open>parsed\<close>, a reference, together with the store its
  writes left. Both loops run over \<^verbatim>\<open>parsed.questions\<close>; the loop bodies write to no
  array, so the elements are read once. The store a throwing call leaves behind is not
  kept.
\<close>

definition validateQuestions :: "heap \<Rightarrow> val \<Rightarrow> schema_error + (val \<times> heap)" where
  "validateQuestions h data =
     (case validateBasicStructure h data of
        Inl e \<Rightarrow> Inl e
      | Inr parsed \<Rightarrow>
        (case unique_ids h (elems h (get h parsed ''questions'')) {} of
           Inl e \<Rightarrow> Inl e
         | Inr _ \<Rightarrow>
           (case check_questions h (elems h (get h parsed ''questions'')) of
              Inl e \<Rightarrow> Inl e
            | Inr h' \<Rightarrow> Inr (parsed, h'))))"

subsection \<open>References into the store\<close>

definition allocated :: "heap \<Rightarrow> val \<Rightarrow> bool" where
  "allocated h v = (case v of Ref a \<Rightarrow> a < length h | _ \<Rightarrow> True)"

subsection \<open>A question document\<close>

text \<open>
  A document with a multi question recommending the single string \<^verbatim>\<open>"X"\<close> and a
  text question:
  \<^verbatim>\<open>{ questions: [
      { id: "q1", type: "multi", question: "Pick?", options: ["X", "Y"], recommended: "X" },
      { id: "q2", type: "text", question: "Why?" } ] }\<close>
\<close>

definition two_questions :: heap where
  "two_questions =
    [Object [(''questions'', Ref 1)],
     Array [Ref 2, Ref 4],
     Object [(''id'', Str ''q1''), (''type'', Str ''multi''), (''question'', Str ''Pick?''),
             (''options'', Ref 3), (''recommended'', Str ''X'')],
     Array [Str ''X'', Str ''Y''],
     Object [(''id'', Str ''q2''), (''type'', Str ''text''), (''question'', Str ''Why?'')]]"

definition two_questions_validated :: heap where
  "two_questions_validated =
    [Object [(''questions'', Ref 1)],
     Array [Ref 2, Ref 4],
     Object [(''id'', Str ''q1''), (''type'', Str ''multi''), (''question'', Str ''Pick?''),
             (''options'', Ref 3), (''recommended'', Ref 5)],
     Array [Str ''X'', Str ''Y''],
     Object [(''id'', Str ''q2''), (''type'', Str ''text''), (''question'', Str ''Why?'')],
     Array [Str ''X'']]"

section \<open>Answers\<close>

text \<open>
  \<^verbatim>\<open>ResponseItem\<close> is declared in server.ts. Its shape is the one loader.ts relies on
  (\<^verbatim>\<open>ans.value\<close> of type \<^verbatim>\<open>string | string[]\<close>, optional \<^verbatim>\<open>ans.attachments\<close>)
  and the README prints (\<^verbatim>\<open>{ "id": "q1", "value": "Option A" }\<close>).
\<close>

datatype answer_value = Text string | Items "string list"

record ResponseItem =
  item_id :: string
  item_value :: answer_value
  item_attachments :: "string list option"

section \<open>The Node.js runtime\<close>

text \<open>
  The value \<^verbatim>\<open>JSON.parse\<close> returns, before it is laid out in the store.
\<close>

datatype json =
    JNull
  | JBool bool
  | JNumber int
  | JString string
  | JArray "json list"
  | JObject "(string \<times> json) list"

text \<open>
  The functions of the runtime that loader.ts and lib.ts call and that are not code of
  this repository: \<^verbatim>\<open>os.homedir()\<close>, \<^verbatim>\<open>process.cwd()\<close>, \<^verbatim>\<open>path.isAbsolute\<close>,
  \<^verbatim>\<open>path.join\<close> (of two arguments), \<^verbatim>\<open>path.dirname\<close>, \<^verbatim>\<open>JSON.parse\<close> (\<open>None\<close> when
  it throws) and the files \<^verbatim>\<open>fs.existsSync\<close> and \<^verbatim>\<open>fs.readFileSync\<close> see.
\<close>

record node =
  os_homedir :: string
  process_cwd :: string
  path_isAbsolute :: "string \<Rightarrow> bool"
  path_join :: "string \<Rightarrow> string \<Rightarrow> string"
  path_dirname :: "string \<Rightarrow> string"
  JSON_parse :: "string \<Rightarrow> json option"
  fs_files :: "string \<Rightarrow> string option"

text \<open>\<^verbatim>\<open>JSON.parse\<close> builds its result out of new objects and arrays.\<close>

fun build :: "json \<Rightarrow> heap \<Rightarrow> val \<times> heap"
  and build_list :: "json list \<Rightarrow> heap \<Rightarrow> val list \<times> heap"
  and build_fields :: "(string \<times> json) list \<Rightarrow> heap \<Rightarrow> (string \<times> val) list \<times> heap"
where
  "build JNull h = (Null, h)"
| "build (JBool b) h = (Bool b, h)"
| "build (JNumber n) h = (Number n, h)"
| "build (JString s) h = (Str s, h)"
| "build (JArray xs) h =
     (case build_list xs h of (vs, h1) \<Rightarrow> (Ref (length h1), h1 @ [Array vs]))"
| "build (JObject fs) h =
     (case build_fields fs h of (kvs, h1) \<Rightarrow> (Ref (length h1), h1 @ [Object kvs]))"
| "build_list [] h = ([], h)"
| "build_list (x # xs) h =
     (case build x h of (v, h1) \<Rightarrow>
        (case build_list xs h1 of (vs, h2) \<Rightarrow> (v # vs, h2)))"
| "build_fields [] h = ([], h)"
| "build_fields ((k, x) # fs) h =
     (case build x h of (v, h1) \<Rightarrow>
        (case build_fields fs h1 of (kvs, h2) \<Rightarrow> ((k, v) # kvs, h2)))"

section \<open>loader.ts\<close>

definition startsWith :: "string \<Rightarrow> string \<Rightarrow> bool" where
  "startsWith s p = (take (length p) s = p)"

definition endsWith :: "string \<Rightarrow> string \<Rightarrow> bool" where
  "endsWith s p = (length p \<le> length s \<and> drop (length s - length p) s = p)"

fun str_includes :: "string \<Rightarrow> string \<Rightarrow> bool" where
  "str_includes [] p = (p = [])"
| "str_includes (c # cs) p = (startsWith (c # cs) p \<or> str_includes cs p)"

text \<open>
  \<^verbatim>\<open>
  export function expandHome(value: string): string {
    if (value === "~") return os.homedir();
    if (value.startsWith("~/") || value.startsWith("~\\")) {
      return path.join(os.homedir(), value.slice(2));
    }
    return value;
  }\<close>
\<close>

definition expandHome :: "node \<Rightarrow> string \<Rightarrow> string" where
  "expandHome N v =
     (if v = ''~'' then os_homedir N
      else if startsWith v ''~/'' \<or> startsWith v [CHR ''~'', CHR 0x5C]
      then path_join N (os_homedir N) (drop 2 v)
      else v)"

text \<open>
  The errors of loader.ts and lib.ts. \<open>Error\<close> carries the message where the source
  writes it out; \<open>InvalidJSON\<close> is \<^verbatim>\<open>Invalid JSON in questions file: ${message}\<close>, whose
  message is the runtime's; \<open>Schema\<close> is an error thrown by schema.ts; \<open>TypeError\<close> is
  the runtime's own error for reading a property of \<^verbatim>\<open>null\<close> or \<^verbatim>\<open>undefined\<close> and for
  calling what is not a function.
\<close>

datatype error =
    Error string
  | InvalidJSON
  | Schema schema_error
  | TypeError

text \<open>
  \<^verbatim>\<open>
  function resolveImagePath(p: string, baseDir: string): string {
    if (!p) return p;
    if (p.includes("://")) return p;
    const expanded = expandHome(p);
    if (path.isAbsolute(expanded)) return expanded;
    return path.join(baseDir, p);
  }\<close>
  Its callers hand it what \<^verbatim>\<open>JSON.parse\<close> produced, cast to \<^verbatim>\<open>ResponseItem[]\<close>
  without a check, so \<open>p\<close> is any value. A falsy value is returned as it is and a
  string takes the path the source writes. Of the other truthy values only an array
  has an \<^verbatim>\<open>includes\<close>: when it holds the string \<^verbatim>\<open>"://"\<close> it is returned, and
  otherwise \<^verbatim>\<open>expandHome\<close> calls its missing \<^verbatim>\<open>startsWith\<close>. A number, \<^verbatim>\<open>true\<close> or an
  object has no function \<^verbatim>\<open>includes\<close> to call.
\<close>

definition resolveImagePath :: "node \<Rightarrow> heap \<Rightarrow> val \<Rightarrow> string \<Rightarrow> error + val" where
  "resolveImagePath N h p baseDir =
     (if \<not> truthy p then Inr p
      else
        case p of
          Str s \<Rightarrow>
            if str_includes s ''://'' then Inr p
            else
              let expanded = expandHome N s in
              if path_isAbsolute N expanded then Inr (Str expanded)
              else Inr (Str (path_join N baseDir s))
        | Ref a \<Rightarrow>
            if isArray h p \<and> Str ''://'' \<in> set (elems h p) then Inr p else Inl TypeError
        | _ \<Rightarrow> Inl TypeError)"

text \<open>\<^verbatim>\<open>xs.map((v) => resolveImagePath(v, baseDir))\<close>, stopping at the first throw.\<close>

fun resolve_each :: "node \<Rightarrow> heap \<Rightarrow> val list \<Rightarrow> string \<Rightarrow> error + val list" where
  "resolve_each N h [] baseDir = Inr []"
| "resolve_each N h (v # vs) baseDir =
     (case resolveImagePath N h v baseDir of
        Inl e \<Rightarrow> Inl e
      | Inr r \<Rightarrow>
        (case resolve_each N h vs baseDir of
           Inl e \<Rightarrow> Inl e
         | Inr rs \<Rightarrow> Inr (r # rs)))"

text \<open>
  \<^verbatim>\<open>
  function resolvePathValue(value: string | string[], baseDir: string): string | string[] {
    if (Array.isArray(value)) {
      return value.map((v) => resolveImagePath(v, baseDir));
    }
    return typeof value === "string" && value ? resolveImagePath(value, baseDir) : value;
  }\<close>
  \<^verbatim>\<open>map\<close> returns a new array.
\<close>

definition resolvePathValue :: "node \<Rightarrow> heap \<Rightarrow> val \<Rightarrow> string \<Rightarrow> error + (val \<times> heap)" where
  "resolvePathValue N h v baseDir =
     (if isArray h v then
        (case resolve_each N h (elems h v) baseDir of
           Inl e \<Rightarrow> Inl e
         | Inr rs \<Rightarrow> Inr (new_array h rs))
      else if typeof v = TString \<and> truthy v then
        (case resolveImagePath N h v baseDir of
           Inl e \<Rightarrow> Inl e
         | Inr r \<Rightarrow> Inr (r, h))
      else Inr (v, h))"

text \<open>\<^verbatim>\<open>{ k1: v1, ..., kn: vn }\<close>: a new object, at an address not in use.\<close>

definition new_object :: "heap \<Rightarrow> (string \<times> val) list \<Rightarrow> val \<times> heap" where
  "new_object h fs = (Ref (length h), h @ [Object fs])"

text \<open>
  The properties \<^verbatim>\<open>{ ...v }\<close> copies: those of an object, the elements of an array
  and the characters of a string under their indices in decimal, and none of any other
  value.
\<close>

fun decimal :: "nat \<Rightarrow> string" where
  "decimal n =
     (if n < 10 then [char_of (48 + n)]
      else decimal (n div 10) @ [char_of (48 + n mod 10)])"

declare decimal.simps [simp del]

definition own_properties :: "heap \<Rightarrow> val \<Rightarrow> (string \<times> val) list" where
  "own_properties h v =
     (case v of
        Ref a \<Rightarrow>
          (case lookup h a of
             Some (Object fs) \<Rightarrow> fs
           | Some (Array xs) \<Rightarrow> zip (map decimal [0..<length xs]) xs
           | None \<Rightarrow> [])
      | Str s \<Rightarrow> zip (map decimal [0..<length s]) (map (\<lambda>c. Str [c]) s)
      | _ \<Rightarrow> [])"

text \<open>
  \<^verbatim>\<open>
  function resolveAnswerPaths(answers: ResponseItem[], baseDir: string): ResponseItem[] {
    return answers.map((ans) => ({
      ...ans,
      value: resolvePathValue(ans.value, baseDir),
      attachments: ans.attachments?.map((p) => resolveImagePath(p, baseDir)),
    }));
  }\<close>
  \<open>resolve_attachments\<close> is \<^verbatim>\<open>att?.map((p) => resolveImagePath(p, baseDir))\<close>: it is
  \<^verbatim>\<open>undefined\<close> for a missing or null \<^verbatim>\<open>att\<close>, maps an array, and has no \<^verbatim>\<open>map\<close> to
  call on anything else. \<open>resolve_answer\<close> is the function mapped over the answers;
  reading \<^verbatim>\<open>ans.value\<close> of \<^verbatim>\<open>null\<close> throws.
\<close>

definition resolve_attachments ::
  "node \<Rightarrow> heap \<Rightarrow> val \<Rightarrow> string \<Rightarrow> error + (val \<times> heap)" where
  "resolve_attachments N h att baseDir =
     (if att = Undefined \<or> att = Null then Inr (Undefined, h)
      else if isArray h att then
        (case resolve_each N h (elems h att) baseDir of
           Inl e \<Rightarrow> Inl e
         | Inr ps \<Rightarrow> Inr (new_array h ps))
      else Inl TypeError)"

definition resolve_answer :: "node \<Rightarrow> heap \<Rightarrow> val \<Rightarrow> string \<Rightarrow> error + (val \<times> heap)" where
  "resolve_answer N h ans baseDir =
     (if ans = Null \<or> ans = Undefined then Inl TypeError
      else
        case resolvePathValue N h (get h ans ''value'') baseDir of
          Inl e \<Rightarrow> Inl e
        | Inr (v, h1) \<Rightarrow>
          (case resolve_attachments N h1 (get h1 ans ''attachments'') baseDir of
             Inl e \<Rightarrow> Inl e
           | Inr (att, h2) \<Rightarrow>
             Inr (new_object h2
                    (assign ''attachments'' att (assign ''value'' v (own_properties h ans))))))"

fun resolve_answers :: "node \<Rightarrow> heap \<Rightarrow> val list \<Rightarrow> string \<Rightarrow> error + (val list \<times> heap)" where
  "resolve_answers N h [] baseDir = Inr ([], h)"
| "resolve_answers N h (ans # rest) baseDir =
     (case resolve_answer N h ans baseDir of
        Inl e \<Rightarrow> Inl e
      | Inr (r, h1) \<Rightarrow>
        (case resolve_answers N h1 rest baseDir of
           Inl e \<Rightarrow> Inl e
         | Inr (rs, h2) \<Rightarrow> Inr (r # rs, h2)))"

definition resolveAnswerPaths :: "node \<Rightarrow> heap \<Rightarrow> val \<Rightarrow> string \<Rightarrow> error + (val \<times> heap)" where
  "resolveAnswerPaths N h answers baseDir =
     (case resolve_answers N h (elems h answers) baseDir of
        Inl e \<Rightarrow> Inl e
      | Inr (rs, h1) \<Rightarrow> Inr (new_array h1 rs))"

text \<open>
  A reading of a value of the store at the types \<^verbatim>\<open>string[]\<close>,
  \<^verbatim>\<open>string | string[]\<close> and \<^verbatim>\<open>ResponseItem\<close> (an \<^verbatim>\<open>id\<close>, a \<^verbatim>\<open>value\<close> and optional
  \<^verbatim>\<open>attachments\<close>), \<open>None\<close> when the value does not have the type. The functions of loader.ts above and
  below do not use it; it serves to say what they return.
\<close>

definition as_strings :: "heap \<Rightarrow> val \<Rightarrow> string list option" where
  "as_strings h v =
     (if isArray h v
      then those (map (\<lambda>x. case x of Str s \<Rightarrow> Some s | _ \<Rightarrow> None) (elems h v))
      else None)"

definition as_value :: "heap \<Rightarrow> val \<Rightarrow> answer_value option" where
  "as_value h x =
     (case x of
        Str s \<Rightarrow> Some (Text s)
      | _ \<Rightarrow> map_option Items (as_strings h x))"

definition as_attachments :: "heap \<Rightarrow> val \<Rightarrow> string list option option" where
  "as_attachments h x =
     (case x of
        Undefined \<Rightarrow> Some None
      | _ \<Rightarrow> map_option Some (as_strings h x))"

definition as_ResponseItem :: "heap \<Rightarrow> val \<Rightarrow> ResponseItem option" where
  "as_ResponseItem h v =
     (case get h v ''id'' of
        Str i \<Rightarrow>
          (case as_value h (get h v ''value'') of
             None \<Rightarrow> None
           | Some a \<Rightarrow>
             (case as_attachments h (get h v ''attachments'') of
                None \<Rightarrow> None
              | Some att \<Rightarrow> Some \<lparr>item_id = i, item_value = a, item_attachments = att\<rparr>))
      | _ \<Rightarrow> None)"

definition as_ResponseItems :: "heap \<Rightarrow> val \<Rightarrow> ResponseItem list option" where
  "as_ResponseItems h v =
     (if isArray h v then those (map (as_ResponseItem h) (elems h v)) else None)"

subsection \<open>The delimiter of the embedded data block\<close>

text \<open>
  \<^verbatim>\<open>html.match(/<script[^>]+id=["']pi-interview-data["'][^>]*>([\s\S]*?)<\/script>/i)\<close>

  The match starts at the leftmost \<^verbatim>\<open><script\<close> (in any case) for which the rest
  matches. \<^verbatim>\<open>[^>]+\<close>, the \<^verbatim>\<open>id\<close> attribute and \<^verbatim>\<open>[^>]*\<close> cannot run over a
  \<^verbatim>\<open>>\<close>, so the tag ends at the first \<^verbatim>\<open>>\<close> after \<^verbatim>\<open><script\<close>, and the attribute
  must stand between the two, at least one character after \<^verbatim>\<open><script\<close>. The group is
  lazy: it ends before the first \<^verbatim>\<open></script>\<close> after the tag.
\<close>

definition lower :: "char \<Rightarrow> char" where
  "lower c =
     (let n = (of_char c :: nat) in if 65 \<le> n \<and> n \<le> 90 then char_of (n + 32) else c)"

fun ci_prefix :: "string \<Rightarrow> string \<Rightarrow> bool" where
  "ci_prefix [] s = True"
| "ci_prefix (p # ps) [] = False"
| "ci_prefix (p # ps) (c # cs) = (if lower c = lower p then ci_prefix ps cs else False)"

definition is_quote :: "char \<Rightarrow> bool" where
  "is_quote c = (c = CHR 0x22 \<or> c = CHR 0x27)"

definition id_attribute :: "string \<Rightarrow> bool" where
  "id_attribute t =
     (ci_prefix ''id='' t \<and>
      (case drop 3 t of
         [] \<Rightarrow> False
       | q1 # t1 \<Rightarrow>
           is_quote q1 \<and> ci_prefix ''pi-interview-data'' t1 \<and>
           (case drop 17 t1 of [] \<Rightarrow> False | q2 # _ \<Rightarrow> is_quote q2)))"

fun somewhere :: "(string \<Rightarrow> bool) \<Rightarrow> string \<Rightarrow> bool" where
  "somewhere P [] = P []"
| "somewhere P (c # cs) = (P (c # cs) \<or> somewhere P cs)"

fun until_close :: "string \<Rightarrow> string option" where
  "until_close [] = None"
| "until_close (c # cs) =
     (if ci_prefix ''</script>'' (c # cs) then Some []
      else map_option ((#) c) (until_close cs))"

definition match_here :: "string \<Rightarrow> string option" where
  "match_here s =
     (if ci_prefix ''<script'' s then
        let rest = drop 7 s;
            tag = takeWhile (\<lambda>c. c \<noteq> CHR ''>'') rest;
            after = dropWhile (\<lambda>c. c \<noteq> CHR ''>'') rest
        in
        if tag \<noteq> [] \<and> after \<noteq> [] \<and> somewhere id_attribute (tl tag)
        then until_close (tl after)
        else None
      else None)"

fun script_match :: "string \<Rightarrow> string option" where
  "script_match [] = match_here []"
| "script_match (c # cs) =
     (case match_here (c # cs) of Some g \<Rightarrow> Some g | None \<Rightarrow> script_match cs)"

subsection \<open>Decoding a saved interview\<close>

text \<open>
  \<^verbatim>\<open>
  let savedFrom: SavedFromMeta | undefined;
  if (raw.savedFrom && typeof raw.savedFrom === "object") {
    const sf = raw.savedFrom as Record<string, unknown>;
    if (typeof sf.cwd === "string" && typeof sf.sessionId === "string") {
      savedFrom = { cwd: sf.cwd,
                    branch: typeof sf.branch === "string" ? sf.branch : null,
                    sessionId: sf.sessionId };
    }
  }\<close>
\<close>

definition read_savedFrom :: "heap \<Rightarrow> val \<Rightarrow> val \<times> heap" where
  "read_savedFrom h raw =
     (let sf = get h raw ''savedFrom'' in
      if truthy sf \<and> typeof sf = TObject \<and>
         typeof (get h sf ''cwd'') = TString \<and> typeof (get h sf ''sessionId'') = TString
      then
        new_object h
          [(''cwd'', get h sf ''cwd''),
           (''branch'', if typeof (get h sf ''branch'') = TString then get h sf ''branch'' else Null),
           (''sessionId'', get h sf ''sessionId'')]
      else (Undefined, h))"

text \<open>
  \<^verbatim>\<open>loadSavedInterview\<close>. What it returns is the new object
  \<^verbatim>\<open>
  { ...validated,
    savedAnswers,
    savedAt: typeof raw.savedAt === "string" ? raw.savedAt : undefined,
    wasSubmitted: typeof raw.wasSubmitted === "boolean" ? raw.wasSubmitted : undefined,
    savedFrom }\<close>
\<close>

definition loadSavedInterview ::
  "node \<Rightarrow> heap \<Rightarrow> string \<Rightarrow> string \<Rightarrow> error + (val \<times> heap)" where
  "loadSavedInterview N h html filePath =
     (case script_match html of
        None \<Rightarrow> Inl (Error ''Invalid saved interview: missing embedded data'')
      | Some block \<Rightarrow>
        (case JSON_parse N block of
           None \<Rightarrow> Inl (Error ''Invalid saved interview: malformed JSON'')
         | Some j \<Rightarrow>
           (case build j h of (data, h1) \<Rightarrow>
              (case validateQuestions h1 data of
                 Inl e \<Rightarrow> Inl (Schema e)
               | Inr (validated, h2) \<Rightarrow>
                 let raw = data; snapshotDir = path_dirname N filePath in
                 (case (if isArray h2 (get h2 raw ''savedAnswers'')
                        then resolveAnswerPaths N h2 (get h2 raw ''savedAnswers'') snapshotDir
                        else Inr (Undefined, h2)) of
                    Inl e \<Rightarrow> Inl e
                  | Inr (savedAnswers, h3) \<Rightarrow>
                    (case read_savedFrom h3 raw of (savedFrom, h4) \<Rightarrow>
                       Inr (new_object h4
                              (assign ''savedFrom'' savedFrom
                                (assign ''wasSubmitted''
                                   (if typeof (get h4 raw ''wasSubmitted'') = TBoolean
                                    then get h4 raw ''wasSubmitted'' else Undefined)
                                  (assign ''savedAt''
                                     (if typeof (get h4 raw ''savedAt'') = TString
                                      then get h4 raw ''savedAt'' else Undefined)
                                    (assign ''savedAnswers'' savedAnswers
                                       (own_properties h4 validated))))))))))))"

text \<open>
  \<^verbatim>\<open>loadQuestions\<close>. A path ending in \<^verbatim>\<open>.html\<close> or \<^verbatim>\<open>.htm\<close> is decoded as a saved
  interview; any other file is parsed and validated, and what is returned is the
  validated object itself, whatever other properties it has.
\<close>

definition loadQuestions ::
  "node \<Rightarrow> heap \<Rightarrow> string \<Rightarrow> string \<Rightarrow> error + (val \<times> heap)" where
  "loadQuestions N h questionsPath cwd =
     (let expanded = expandHome N questionsPath;
          absolutePath =
            (if path_isAbsolute N expanded then expanded else path_join N cwd questionsPath)
      in
      case fs_files N absolutePath of
        None \<Rightarrow> Inl (Error (''Questions file not found: '' @ absolutePath))
      | Some content \<Rightarrow>
        if endsWith absolutePath ''.html'' \<or> endsWith absolutePath ''.htm''
        then loadSavedInterview N h content absolutePath
        else
          (case JSON_parse N content of
             None \<Rightarrow> Inl InvalidJSON
           | Some j \<Rightarrow>
             (case build j h of (data, h1) \<Rightarrow>
                (case validateQuestions h1 data of
                   Inl e \<Rightarrow> Inl (Schema e)
                 | Inr (validated, h2) \<Rightarrow> Inr (validated, h2)))))"

text \<open>
  \<^verbatim>\<open>
  function resolveOptionalPath(value: string | undefined, cwd: string): string | undefined {
    if (!value) return undefined;
    const expanded = expandHome(value);
    return path.isAbsolute(expanded) ? expanded : path.join(cwd, expanded);
  }\<close>
\<close>

definition resolveOptionalPath :: "node \<Rightarrow> string option \<Rightarrow> string \<Rightarrow> string option" where
  "resolveOptionalPath N v cwd =
     (case v of
        None \<Rightarrow> None
      | Some p \<Rightarrow>
        if p = [] then None
        else
          let expanded = expandHome N p in
          Some (if path_isAbsolute N expanded then expanded else path_join N cwd expanded))"

record ThemeInput =
  theme_mode :: "string option"
  theme_name :: "string option"
  lightPath :: "string option"
  darkPath :: "string option"
  toggleHotkey :: "string option"

definition DEFAULT_THEME_HOTKEY :: string where
  "DEFAULT_THEME_HOTKEY = ''mod+shift+l''"

definition mergeThemeConfig :: "node \<Rightarrow> ThemeInput option \<Rightarrow> string \<Rightarrow> ThemeInput" where
  "mergeThemeConfig N theme cwd =
     (let merged =
            (case theme of
               None \<Rightarrow> \<lparr>theme_mode = None, theme_name = None, lightPath = None,
                         darkPath = None, toggleHotkey = None\<rparr>
             | Some t \<Rightarrow> t)
      in merged
           \<lparr>toggleHotkey :=
              Some (case toggleHotkey merged of None \<Rightarrow> DEFAULT_THEME_HOTKEY | Some k \<Rightarrow> k),
            lightPath := resolveOptionalPath N (lightPath merged) cwd,
            darkPath := resolveOptionalPath N (darkPath merged) cwd\<rparr>)"

subsection \<open>The runtime on a POSIX system\<close>

text \<open>
  Node's \<^verbatim>\<open>path.posix\<close>: a path is absolute when it starts with a slash;
  \<^verbatim>\<open>path.join\<close> puts a slash between its non-empty arguments and normalizes the result
  (empty and \<^verbatim>\<open>.\<close> segments go, \<^verbatim>\<open>..\<close> takes the segment before it away and, in a
  relative path, stays when there is none); \<^verbatim>\<open>path.dirname\<close> cuts the last segment and
  the slashes before it.
\<close>

definition posix_isAbsolute :: "string \<Rightarrow> bool" where
  "posix_isAbsolute p = (case p of [] \<Rightarrow> False | c # _ \<Rightarrow> c = CHR ''/'')"

fun segments :: "string \<Rightarrow> string list" where
  "segments [] = [[]]"
| "segments (c # cs) =
     (if c = CHR ''/'' then [] # segments cs
      else (case segments cs of [] \<Rightarrow> [[c]] | seg # segs \<Rightarrow> (c # seg) # segs))"

fun normalize_segments :: "bool \<Rightarrow> string list \<Rightarrow> string list \<Rightarrow> string list" where
  "normalize_segments allowAboveRoot res [] = res"
| "normalize_segments allowAboveRoot res (seg # segs) =
     normalize_segments allowAboveRoot
       (if seg = [] \<or> seg = ''.'' then res
        else if seg = ''..'' then
          (if res \<noteq> [] \<and> last res \<noteq> ''..'' then butlast res
           else if allowAboveRoot then res @ [''..'']
           else res)
        else res @ [seg])
       segs"

fun joined :: "string list \<Rightarrow> string" where
  "joined [] = []"
| "joined [seg] = seg"
| "joined (seg # segs) = seg @ ''/'' @ joined segs"

definition posix_normalize :: "string \<Rightarrow> string" where
  "posix_normalize p =
     (if p = [] then ''.''
      else
        let isAbsolute = posix_isAbsolute p;
            trailingSeparator = (last p = CHR ''/'');
            body = joined (normalize_segments (\<not> isAbsolute) [] (segments p))
        in
        if body = [] then (if isAbsolute then ''/'' else if trailingSeparator then ''./'' else ''.'')
        else (if isAbsolute then ''/'' else []) @ body @ (if trailingSeparator then ''/'' else []))"

definition posix_join :: "string \<Rightarrow> string \<Rightarrow> string" where
  "posix_join a b =
     (if a = [] \<and> b = [] then ''.''
      else posix_normalize (if a = [] then b else if b = [] then a else a @ ''/'' @ b))"

definition posix_dirname :: "string \<Rightarrow> string" where
  "posix_dirname p =
     (if p = [] then ''.''
      else
        let hasRoot = (hd p = CHR ''/'');
            backwards = dropWhile (\<lambda>c. c = CHR ''/'') (rev (tl p));
            parent = dropWhile (\<lambda>c. c \<noteq> CHR ''/'') backwards;
            cut = length parent
        in
        if parent = [] then (if hasRoot then ''/'' else ''.'')
        else if hasRoot \<and> cut = 1 then ''//''
        else take cut p)"

definition posix :: "string \<Rightarrow> string \<Rightarrow> (string \<times> json) list \<Rightarrow> (string \<times> string) list \<Rightarrow> node" where
  "posix home cwd parses files =
     \<lparr>os_homedir = home, process_cwd = cwd, path_isAbsolute = posix_isAbsolute,
      path_join = posix_join, path_dirname = posix_dirname,
      JSON_parse = map_of parses, fs_files = map_of files\<rparr>"

subsection \<open>Path resolution of decoded answers\<close>

text \<open>
  A URI scheme (RFC 3986): a letter, then letters, digits, \<^verbatim>\<open>+\<close>, \<^verbatim>\<open>-\<close> and \<^verbatim>\<open>.\<close>, up
  to a colon.
\<close>

definition is_alpha :: "char \<Rightarrow> bool" where
  "is_alpha c = (c \<in> set ''abcdefghijklmnopqrstuvwxyzABCDEFGHIJKLMNOPQRSTUVWXYZ'')"

definition is_scheme_char :: "char \<Rightarrow> bool" where
  "is_scheme_char c = (is_alpha c \<or> c \<in> set ''0123456789+-.'')"

definition has_uri_scheme :: "string \<Rightarrow> bool" where
  "has_uri_scheme p =
     (case p of
        [] \<Rightarrow> False
      | c # cs \<Rightarrow>
          is_alpha c \<and>
          (case dropWhile is_scheme_char cs of CHR '':'' # _ \<Rightarrow> True | _ \<Rightarrow> False))"

text \<open>
  The rule as the specification words it: a path containing a URI scheme is left
  untouched, an absolute path is kept, everything else is resolved relative to the
  snapshot document's own directory.
\<close>

definition spec_resolution_rule :: "node \<Rightarrow> string \<Rightarrow> string \<Rightarrow> string" where
  "spec_resolution_rule N baseDir p =
     (if has_uri_scheme p then p
      else if path_isAbsolute N p then p
      else path_join N baseDir p)"

text \<open>
  The rule the decoder is shown to follow below, written out without reference to
  \<^verbatim>\<open>resolveImagePath\<close> and \<^verbatim>\<open>expandHome\<close>. A path is home-relative when it is \<^verbatim>\<open>~\<close> or
  begins with \<^verbatim>\<open>~/\<close> or \<^verbatim>\<open>~\\<close>; its expansion puts the home directory in the place of
  the \<^verbatim>\<open>~\<close>. The empty path and a path containing \<^verbatim>\<open>://\<close> are left untouched; a
  home-relative path whose expansion is absolute is replaced by the expansion; any
  other absolute path is kept; everything else is joined onto the base directory.
\<close>

definition home_relative :: "string \<Rightarrow> bool" where
  "home_relative p = (p = ''~'' \<or> startsWith p ''~/'' \<or> startsWith p [CHR ''~'', CHR 0x5C])"

definition home_expansion :: "node \<Rightarrow> string \<Rightarrow> string" where
  "home_expansion N p =
     (if p = ''~'' then os_homedir N else path_join N (os_homedir N) (drop 2 p))"

definition resolution_rule :: "node \<Rightarrow> string \<Rightarrow> string \<Rightarrow> string" where
  "resolution_rule N baseDir p =
     (if p = [] then p
      else if str_includes p ''://'' then p
      else if home_relative p \<and> path_isAbsolute N (home_expansion N p) then home_expansion N p
      else if \<not> home_relative p \<and> path_isAbsolute N p then p
      else path_join N baseDir p)"

text \<open>The rule applied to the value and to the attachments of an answer.\<close>

definition resolved_item :: "node \<Rightarrow> string \<Rightarrow> ResponseItem \<Rightarrow> ResponseItem" where
  "resolved_item N baseDir it =
     \<lparr>item_id = item_id it,
      item_value =
        (case item_value it of
           Text s \<Rightarrow> Text (resolution_rule N baseDir s)
         | Items ps \<Rightarrow> Items (map (resolution_rule N baseDir) ps)),
      item_attachments = map_option (map (resolution_rule N baseDir)) (item_attachments it)\<rparr>"

subsection \<open>A snapshot document\<close>

text \<open>
  A snapshot of a session with a text question answered \<^verbatim>\<open>hello\<close> and an image
  question answered with three file references, as found at \<^verbatim>\<open>/snap/index.html\<close>.
  \<open>snapshot_data\<close> is what \<^verbatim>\<open>JSON.parse\<close> makes of the data block.
\<close>

definition snapshot_block :: string where
  "snapshot_block =
     ''{\"title\":\"Demo\",\"questions\":[{\"id\":\"q1\",\"type\":\"text\",\"question\":\"Why?\"},'' @
     ''{\"id\":\"q2\",\"type\":\"image\",\"question\":\"Shots?\"}],'' @
     ''\"savedAnswers\":[{\"id\":\"q1\",\"value\":\"hello\"},'' @
     ''{\"id\":\"q2\",\"value\":[\"images/a.png\",\"https://x.org/b.png\",\"/abs/c.png\"]}],'' @
     ''\"savedAt\":\"2026-02-16T10:00:00.000Z\",\"wasSubmitted\":true,'' @
     ''\"savedFrom\":{\"cwd\":\"/work\",\"branch\":\"main\",\"sessionId\":\"s-1\"}}''"

definition snapshot_data :: json where
  "snapshot_data =
     JObject
       [(''title'', JString ''Demo''),
        (''questions'',
           JArray
             [JObject [(''id'', JString ''q1''), (''type'', JString ''text''),
                       (''question'', JString ''Why?'')],
              JObject [(''id'', JString ''q2''), (''type'', JString ''image''),
                       (''question'', JString ''Shots?'')]]),
        (''savedAnswers'',
           JArray
             [JObject [(''id'', JString ''q1''), (''value'', JString ''hello'')],
              JObject [(''id'', JString ''q2''),
                       (''value'',
                          JArray [JString ''images/a.png'', JString ''https://x.org/b.png'',
                                  JString ''/abs/c.png''])]]),
        (''savedAt'', JString ''2026-02-16T10:00:00.000Z''),
        (''wasSubmitted'', JBool True),
        (''savedFrom'',
           JObject [(''cwd'', JString ''/work''), (''branch'', JString ''main''),
                    (''sessionId'', JString ''s-1'')])]"

definition snapshot_html :: string where
  "snapshot_html =
     ''<!DOCTYPE html><html><head><title>Demo</title></head><body>'' @
     ''<script type=\"application/json\" id=\"pi-interview-data\">'' @ snapshot_block @
     ''</script></body></html>''"

definition broken_html :: string where
  "broken_html =
     ''<html><body><script type=\"application/json\" id=\"pi-interview-data\">'' @
     ''{\"questions\":[</script></body></html>''"

definition plain_html :: string where
  "plain_html = ''<html><body><script>let x = 1;</script><p>Hello</p></body></html>''"

text \<open>
  A POSIX system with home directory \<^verbatim>\<open>/home/u\<close>, working directory \<^verbatim>\<open>/work\<close>,
  and \<^verbatim>\<open>JSON.parse\<close> given on the one well-formed text used here; it throws on the
  broken block \<^verbatim>\<open>{"questions":[\<close>.
\<close>

definition demo_node :: node where
  "demo_node =
     posix ''/home/u'' ''/work'' [(snapshot_block, snapshot_data)]
       [(''/snap/index.html'', snapshot_html)]"

definition snapshot_store :: heap where
  "snapshot_store =
     [Object [(''id'', Str ''q1''), (''type'', Str ''text''), (''question'', Str ''Why?'')],
      Object [(''id'', Str ''q2''), (''type'', Str ''image''), (''question'', Str ''Shots?'')],
      Array [Ref 0, Ref 1],
      Object [(''id'', Str ''q1''), (''value'', Str ''hello'')],
      Array [Str ''images/a.png'', Str ''https://x.org/b.png'', Str ''/abs/c.png''],
      Object [(''id'', Str ''q2''), (''value'', Ref 4)],
      Array [Ref 3, Ref 5],
      Object [(''cwd'', Str ''/work''), (''branch'', Str ''main''), (''sessionId'', Str ''s-1'')],
      Object [(''title'', Str ''Demo''), (''questions'', Ref 2), (''savedAnswers'', Ref 6),
              (''savedAt'', Str ''2026-02-16T10:00:00.000Z''), (''wasSubmitted'', Bool True),
              (''savedFrom'', Ref 7)],
      Object [(''id'', Str ''q1''), (''value'', Str ''/snap/hello''),
              (''attachments'', Undefined)],
      Array [Str ''/snap/images/a.png'', Str ''https://x.org/b.png'', Str ''/abs/c.png''],
      Object [(''id'', Str ''q2''), (''value'', Ref 10), (''attachments'', Undefined)],
      Array [Ref 9, Ref 11],
      Object [(''cwd'', Str ''/work''), (''branch'', Str ''main''), (''sessionId'', Str ''s-1'')],
      Object [(''title'', Str ''Demo''), (''questions'', Ref 2), (''savedAnswers'', Ref 12),
              (''savedAt'', Str ''2026-02-16T10:00:00.000Z''), (''wasSubmitted'', Bool True),
              (''savedFrom'', Ref 13)]]"

text \<open>
  The store after decoding: cells 0 to 8 are the parsed data block, whose root is cell
  8; cells 9 to 12 are the resolved answers, cell 13 is \<^verbatim>\<open>savedFrom\<close>, and cell 14 is
  the object \<^verbatim>\<open>loadSavedInterview\<close> returns.
\<close>

definition snapshot_loaded :: val where
  "snapshot_loaded = Ref 14"

text \<open>
  A second snapshot, at \<^verbatim>\<open>/snap/shots.html\<close>: one image question, answered with a
  home-relative path and two attachments, a relative path and a \<^verbatim>\<open>data:\<close> URI.
\<close>

definition shots_block :: string where
  "shots_block =
     ''{\"questions\":[{\"id\":\"q1\",\"type\":\"image\",\"question\":\"Shots?\"}],'' @
     ''\"savedAnswers\":[{\"id\":\"q1\",\"value\":\"~/shots/a.png\",'' @
     ''\"attachments\":[\"notes/b.png\",\"data:image/png;base64,AAAA\"]}]}''"

definition shots_data :: json where
  "shots_data =
     JObject
       [(''questions'',
           JArray
             [JObject [(''id'', JString ''q1''), (''type'', JString ''image''),
                       (''question'', JString ''Shots?'')]]),
        (''savedAnswers'',
           JArray
             [JObject [(''id'', JString ''q1''), (''value'', JString ''~/shots/a.png''),
                       (''attachments'',
                          JArray [JString ''notes/b.png'',
                                  JString ''data:image/png;base64,AAAA''])]])]"

text \<open>What \<^verbatim>\<open>JSON.parse\<close> makes of the data block in an empty store; its root is cell 5.\<close>

definition shots_store :: heap where
  "shots_store =
     [Object [(''id'', Str ''q1''), (''type'', Str ''image''), (''question'', Str ''Shots?'')],
      Array [Ref 0],
      Array [Str ''notes/b.png'', Str ''data:image/png;base64,AAAA''],
      Object [(''id'', Str ''q1''), (''value'', Str ''~/shots/a.png''),
              (''attachments'', Ref 2)],
      Array [Ref 3],
      Object [(''questions'', Ref 1), (''savedAnswers'', Ref 4)]]"

definition shots_html :: string where
  "shots_html = ''<script id=\"pi-interview-data\">'' @ shots_block @ ''</script>''"

definition shots_node :: node where
  "shots_node = posix ''/home/u'' ''/work'' [(shots_block, shots_data)] []"

section \<open>lib.ts: the promise returned by interview()\<close>

text \<open>
  \<^verbatim>\<open>export type InterviewStatus = "completed" | "cancelled" | "timeout" | "aborted";\<close>
\<close>

datatype InterviewStatus = Completed | Cancelled | Timeout | Aborted

record InterviewResult =
  status :: InterviewStatus
  responses :: "ResponseItem list"
  result_url :: string

record InterviewServerHandle =
  handle_url :: string

text \<open>\<^verbatim>\<open>QueuedInfo\<close>, the argument of the caller's \<^verbatim>\<open>onQueued\<close> callback.\<close>

record ExistingSession =
  es_id :: string
  es_title :: string
  es_cwd :: string
  es_gitBranch :: "string option"
  es_startedAt :: int

record QueuedInfo =
  existingSession :: ExistingSession
  queued_url :: string

text \<open>
  What interview() does to the outside world: the calls of the caller's callbacks,
  the browser launch (\<^verbatim>\<open>openUrl(url, options.browser)\<close>) and the handle's
  \<^verbatim>\<open>close()\<close>.
\<close>

datatype effect =
    CallOnReady string
  | CallOnQueued QueuedInfo
  | OpenUrl string "string option"
  | Close InterviewServerHandle

text \<open>
  The variables the closures of interview() share: \<^verbatim>\<open>server\<close>, \<^verbatim>\<open>resolved\<close>, \<^verbatim>\<open>url\<close>;
  whether \<^verbatim>\<open>handleAbort\<close> is registered on \<^verbatim>\<open>options.signal\<close>; every call of
  \<^verbatim>\<open>resolve\<close> (\<open>Inr\<close>) and \<^verbatim>\<open>reject\<close> (\<open>Inl\<close>) in the order made; and the trace of
  effects.
\<close>

record interview_state =
  server :: "InterviewServerHandle option"
  resolved :: bool
  url :: string
  abort_listener :: bool
  settle_calls :: "(error + InterviewResult) list"
  trace :: "effect list"

text \<open>A JavaScript promise keeps the first settlement; later calls do nothing.\<close>

definition promise :: "interview_state \<Rightarrow> (error + InterviewResult) option" where
  "promise st = (case settle_calls st of [] \<Rightarrow> None | x # _ \<Rightarrow> Some x)"

definition resolve :: "interview_state \<Rightarrow> InterviewResult \<Rightarrow> interview_state" where
  "resolve st r = st\<lparr>settle_calls := settle_calls st @ [Inr r]\<rparr>"

definition reject :: "interview_state \<Rightarrow> error \<Rightarrow> interview_state" where
  "reject st e = st\<lparr>settle_calls := settle_calls st @ [Inl e]\<rparr>"

text \<open>
  \<^verbatim>\<open>const cleanup = () => { if (server) { server.close(); server = null; } };\<close>
\<close>

definition cleanup :: "interview_state \<Rightarrow> interview_state" where
  "cleanup st =
     (case server st of
        Some h \<Rightarrow> st\<lparr>server := None, trace := trace st @ [Close h]\<rparr>
      | None \<Rightarrow> st)"

text \<open>
  \<^verbatim>\<open>
  const finish = (status, responses = []) => {
    if (resolved) return;
    resolved = true;
    options.signal?.removeEventListener("abort", handleAbort);
    cleanup();
    resolve({ status, responses, url });
  };\<close>
  The default \<^verbatim>\<open>responses = []\<close> is written out at the one call that relies on it,
  \<open>handleAbort\<close>.
\<close>

definition finish ::
  "interview_state \<Rightarrow> InterviewStatus \<Rightarrow> ResponseItem list \<Rightarrow> interview_state" where
  "finish st st_status st_responses =
     (if resolved st then st
      else
        let st1 = st\<lparr>resolved := True\<rparr>;
            st2 = st1\<lparr>abort_listener := False\<rparr>;
            st3 = cleanup st2
        in resolve st3 \<lparr>status = st_status, responses = st_responses, result_url = url st3\<rparr>)"

text \<open>\<^verbatim>\<open>const handleAbort = () => finish("aborted");\<close>\<close>

definition handleAbort :: "interview_state \<Rightarrow> interview_state" where
  "handleAbort st = finish st Aborted []"

text \<open>
  The callbacks handed to startInterviewServer:
  \<^verbatim>\<open>
  onSubmit: (responses) => finish("completed", responses),
  onCancel: (reason, partialResponses) =>
    reason === "timeout"
      ? finish("timeout", partialResponses ?? [])
      : finish("cancelled", partialResponses ?? []),\<close>
  An absent \<^verbatim>\<open>reason\<close> or \<^verbatim>\<open>partialResponses\<close> is \<open>None\<close>.
\<close>

definition orEmpty :: "'a list option \<Rightarrow> 'a list" where
  "orEmpty p = (case p of None \<Rightarrow> [] | Some xs \<Rightarrow> xs)"

definition onSubmit :: "interview_state \<Rightarrow> ResponseItem list \<Rightarrow> interview_state" where
  "onSubmit st rs = finish st Completed rs"

definition onCancel ::
  "interview_state \<Rightarrow> string option \<Rightarrow> ResponseItem list option \<Rightarrow> interview_state" where
  "onCancel st reason partialResponses =
     (if reason = Some ''timeout''
      then finish st Timeout (orEmpty partialResponses)
      else finish st Cancelled (orEmpty partialResponses))"

text \<open>
  The events that can end a session: the server's two callbacks and the abort event of
  the caller's signal. The abort listener is registered with \<^verbatim>\<open>{ once: true }\<close> and
  only when the caller gave a signal, so the event reaches \<open>handleAbort\<close> only while
  the listener is registered.
\<close>

datatype trigger =
    Submit "ResponseItem list"
  | Cancel "string option" "ResponseItem list option"
  | SignalAbort

fun fire :: "interview_state \<Rightarrow> trigger \<Rightarrow> interview_state" where
  "fire st (Submit rs) = onSubmit st rs"
| "fire st (Cancel reason partialResponses) = onCancel st reason partialResponses"
| "fire st SignalAbort =
     (if abort_listener st then handleAbort (st\<lparr>abort_listener := False\<rparr>) else st)"

definition run :: "interview_state \<Rightarrow> trigger list \<Rightarrow> interview_state" where
  "run st ts = foldl fire st ts"

text \<open>
  The state in which the promise's executor leaves the closure variables: nothing
  resolved yet, no handle, the abort listener registered when a signal was given.
\<close>

definition pending :: "bool \<Rightarrow> interview_state" where
  "pending has_signal =
     \<lparr>server = None, resolved = False, url = [], abort_listener = has_signal,
      settle_calls = [], trace = []\<rparr>"

text \<open>The outcome a trigger asks for, read off the three call sites of \<open>finish\<close>.\<close>

fun requested :: "trigger \<Rightarrow> InterviewStatus \<times> ResponseItem list" where
  "requested (Submit rs) = (Completed, rs)"
| "requested (Cancel reason partialResponses) =
     (if reason = Some ''timeout'' then Timeout else Cancelled, orEmpty partialResponses)"
| "requested SignalAbort = (Aborted, [])"

definition reaches_finish :: "interview_state \<Rightarrow> trigger \<Rightarrow> bool" where
  "reaches_finish st t = (t \<noteq> SignalAbort \<or> abort_listener st)"

subsection \<open>What a terminal outcome carries\<close>

definition outcome :: "interview_state \<Rightarrow> InterviewResult option" where
  "outcome st = (case promise st of Some (Inr r) \<Rightarrow> Some r | _ \<Rightarrow> None)"

text \<open>
  The answers a session holds live in the server (server.ts, not among the sources);
  here they are a component of the environment, beside the closure variables of
  interview(). The abort event of the caller's signal runs \<open>handleAbort\<close> on the
  closure variables and has no access to the answers.
\<close>

record session_world =
  lib :: interview_state
  recorded :: "ResponseItem list"

definition signal_abort :: "session_world \<Rightarrow> session_world" where
  "signal_abort w = w\<lparr>lib := fire (lib w) SignalAbort\<rparr>"

section \<open>lib.ts: starting an interview\<close>

text \<open>
  \<^verbatim>\<open>InterviewOptions\<close>. \<open>opt_questions\<close> and \<open>opt_savedAnswers\<close> are \<^verbatim>\<open>undefined\<close> when the caller
  gives none.
  \<open>opt_signal\<close> is \<open>None\<close> without a signal and otherwise holds the signal's
  \<^verbatim>\<open>aborted\<close> flag at the time of the call. Of the two callbacks only their presence
  matters; their calls are recorded in the trace.
\<close>

record InterviewOptions =
  opt_questions :: val
  opt_questionsPath :: "string option"
  opt_timeout :: "int option"
  opt_theme :: "ThemeInput option"
  opt_port :: "int option"
  opt_open :: "bool option"
  opt_browser :: "string option"
  opt_snapshotDir :: "string option"
  opt_autoSave :: "bool option"
  opt_savedAnswers :: val
  opt_cwd :: "string option"
  opt_signal :: "bool option"
  opt_verbose :: "bool option"
  opt_onReady :: bool
  opt_onQueued :: bool

text \<open>The first argument of \<^verbatim>\<open>startInterviewServer\<close>.\<close>

record InterviewServerOptions =
  so_questions :: val
  so_sessionToken :: string
  so_sessionId :: string
  so_cwd :: string
  so_timeout :: int
  so_port :: "int option"
  so_verbose :: "bool option"
  so_theme :: ThemeInput
  so_snapshotDir :: "string option"
  so_autoSaveOnSubmit :: bool
  so_savedAnswers :: val

text \<open>
  How the call of interview() ends. interview() is an \<^verbatim>\<open>async\<close> function whose body has
  no \<^verbatim>\<open>await\<close> before its \<^verbatim>\<open>return new Promise\<close>: what it throws or returns on the way
  there has settled the promise the caller holds when the call returns. \<open>Rejected\<close> is
  that promise rejected with what the body threw, \<open>Returned\<close> that promise fulfilled with
  what the body returned, both with \<^verbatim>\<open>startInterviewServer\<close> never called. \<open>Starting\<close>
  is the body having reached the promise it returns, where \<^verbatim>\<open>startInterviewServer\<close> is
  called with the given options: the one place a listener is opened.
\<close>

datatype started =
    Rejected error
  | Returned InterviewResult
  | Starting interview_state InterviewServerOptions heap

text \<open>
  \<^verbatim>\<open>interview(options)\<close> up to the call of \<^verbatim>\<open>startInterviewServer\<close>. The two
  \<^verbatim>\<open>randomUUID()\<close> values are arguments.
\<close>

definition interview ::
  "node \<Rightarrow> heap \<Rightarrow> InterviewOptions \<Rightarrow> string \<Rightarrow> string \<Rightarrow> started" where
  "interview N h options sessionId sessionToken =
     (let cwd = (case opt_cwd options of None \<Rightarrow> process_cwd N | Some c \<Rightarrow> c);
          timeoutSeconds = (case opt_timeout options of None \<Rightarrow> 600 | Some t \<Rightarrow> t)
      in
      case (if truthy (opt_questions options) then
              (case validateQuestions h (opt_questions options) of
                 Inl e \<Rightarrow> Inl (Schema e)
               | Inr (questionsData, h') \<Rightarrow> Inr (questionsData, Undefined, h'))
            else
              (case opt_questionsPath options of
                 Some (c # cs) \<Rightarrow>
                   (case loadQuestions N h (c # cs) cwd of
                      Inl e \<Rightarrow> Inl e
                    | Inr (loaded, h') \<Rightarrow> Inr (loaded, get h' loaded ''savedAnswers'', h'))
               | _ \<Rightarrow> Inl (Error ''Either questions or questionsPath is required''))) of
        Inl e \<Rightarrow> Rejected e
      | Inr (questionsData, loadedSavedAnswers, h') \<Rightarrow>
        let themeConfig = mergeThemeConfig N (opt_theme options) cwd;
            snapshotDir =
              (case opt_snapshotDir options of
                 Some (c # cs) \<Rightarrow> Some (expandHome N (c # cs))
               | _ \<Rightarrow> None)
        in
        if opt_signal options = Some True
        then Returned \<lparr>status = Aborted, responses = [], result_url = []\<rparr>
        else
          Starting (pending (opt_signal options \<noteq> None))
            \<lparr>so_questions = questionsData,
             so_sessionToken = sessionToken,
             so_sessionId = sessionId,
             so_cwd = cwd,
             so_timeout = timeoutSeconds,
             so_port = opt_port options,
             so_verbose = opt_verbose options,
             so_theme = themeConfig,
             so_snapshotDir = snapshotDir,
             so_autoSaveOnSubmit = (case opt_autoSave options of None \<Rightarrow> True | Some b \<Rightarrow> b),
             so_savedAnswers =
               (if opt_savedAnswers options = Undefined \<or> opt_savedAnswers options = Null
                then loadedSavedAnswers
                else opt_savedAnswers options)\<rparr>
            h')"

text \<open>
  An entry of \<^verbatim>\<open>getActiveSessions()\<close> (server.ts), with the fields lib.ts reads.
\<close>

record ActiveSession =
  as_id :: string
  as_title :: string
  as_cwd :: string
  as_gitBranch :: "string option"
  as_startedAt :: int

text \<open>
  The handler of \<^verbatim>\<open>startInterviewServer(...).then\<close>: \<open>handle\<close> is the handle of the
  listener that came up, \<open>activeSessions\<close> what \<^verbatim>\<open>getActiveSessions()\<close> returns at
  that moment, and \<open>openFailure\<close> the message with which \<^verbatim>\<open>openUrl\<close> fails, if it is
  called and fails.
\<close>

definition on_started ::
  "InterviewOptions \<Rightarrow> string \<Rightarrow> interview_state \<Rightarrow> InterviewServerHandle \<Rightarrow>
   ActiveSession list \<Rightarrow> string option \<Rightarrow> interview_state" where
  "on_started options sessionId st handle activeSessions openFailure =
     (if resolved st then st\<lparr>trace := trace st @ [Close handle]\<rparr>
      else
        let st1 = st\<lparr>server := Some handle, url := handle_url handle\<rparr>;
            st2 = (if opt_onReady options
                   then st1\<lparr>trace := trace st1 @ [CallOnReady (url st1)]\<rparr> else st1);
            otherActive = filter (\<lambda>s. as_id s \<noteq> sessionId) activeSessions;
            shouldOpen = (opt_open options \<noteq> Some False)
        in
        case otherActive of
          active # _ \<Rightarrow>
            if opt_onQueued options
            then st2\<lparr>trace := trace st2 @
                   [CallOnQueued
                      \<lparr>existingSession =
                         \<lparr>es_id = as_id active, es_title = as_title active,
                          es_cwd = as_cwd active, es_gitBranch = as_gitBranch active,
                          es_startedAt = as_startedAt active\<rparr>,
                       queued_url = url st2\<rparr>]\<rparr>
            else st2
        | [] \<Rightarrow>
            if shouldOpen then
              (let st3 = st2\<lparr>trace := trace st2 @ [OpenUrl (url st2) (opt_browser options)]\<rparr>
               in case openFailure of
                    None \<Rightarrow> st3
                  | Some message \<Rightarrow>
                      reject (cleanup st3) (Error (''Failed to open browser: '' @ message)))
            else st2)"

text \<open>The handler of \<^verbatim>\<open>.catch\<close>: \<^verbatim>\<open>cleanup(); reject(err);\<close>\<close>

definition on_start_failed :: "interview_state \<Rightarrow> error \<Rightarrow> interview_state" where
  "on_start_failed st err = reject (cleanup st) err"

subsection \<open>Two concurrent sessions\<close>

text \<open>The options of a caller who gives nothing.\<close>

definition no_options :: InterviewOptions where
  "no_options =
     \<lparr>opt_questions = Undefined, opt_questionsPath = None, opt_timeout = None,
      opt_theme = None, opt_port = None, opt_open = None, opt_browser = None,
      opt_snapshotDir = None, opt_autoSave = None, opt_savedAnswers = Undefined,
      opt_cwd = None,
      opt_signal = None, opt_verbose = None, opt_onReady = False, opt_onQueued = False\<rparr>"

definition first_session :: ActiveSession where
  "first_session =
     \<lparr>as_id = ''first'', as_title = ''Project Setup'', as_cwd = ''/work'',
      as_gitBranch = Some ''main'', as_startedAt = 1771236000000\<rparr>"

definition second_session :: ActiveSession where
  "second_session =
     \<lparr>as_id = ''second'', as_title = ''Demo'', as_cwd = ''/work'',
      as_gitBranch = None, as_startedAt = 1771236060000\<rparr>"

subsection \<open>The listeners and the browser\<close>

text \<open>
  Modelled from the spec: what the effects of interview() act on. A session is
  reachable while its listener is bound (section 4.1); \<^verbatim>\<open>handle.close()\<close> shuts the
  listener of that handle down and no other; \<^verbatim>\<open>openUrl\<close> opens a browser tab; the
  caller's callbacks touch neither. \<open>listeners\<close> are the handles of the bound
  listeners, \<open>tabs\<close> the opened tabs with the browser asked for.
\<close>

record world =
  listeners :: "InterviewServerHandle list"
  tabs :: "(string \<times> string option) list"

fun perform :: "effect \<Rightarrow> world \<Rightarrow> world" where
  "perform (CallOnReady u) w = w"
| "perform (CallOnQueued info) w = w"
| "perform (OpenUrl u b) w = w\<lparr>tabs := tabs w @ [(u, b)]\<rparr>"
| "perform (Close c) w = w\<lparr>listeners := remove1 c (listeners w)\<rparr>"

text \<open>
  Modelled from the spec: the listener of a starting session comes up.
  \<^verbatim>\<open>startInterviewServer\<close> has bound it, its promise is fulfilled with \<open>handle\<close>, and the
  handler \<open>on_started\<close> of interview() runs; the effects it adds to the trace are
  performed in order.
\<close>

definition listener_up ::
  "InterviewOptions \<Rightarrow> string \<Rightarrow> InterviewServerHandle \<Rightarrow> ActiveSession list \<Rightarrow>
   string option \<Rightarrow> world \<times> interview_state \<Rightarrow> world \<times> interview_state" where
  "listener_up options sessionId handle activeSessions openFailure ws =
     (case ws of (w, st) \<Rightarrow>
        let st' = on_started options sessionId st handle activeSessions openFailure in
        (fold perform (drop (length (trace st)) (trace st'))
           (w\<lparr>listeners := listeners w @ [handle]\<rparr>),
         st'))"

section \<open>The session server (server.ts, not among the sources)\<close>

text \<open>
  Modelled from the spec: the lifecycle of section 4.1,
  \<^verbatim>\<open>created -> listening -> active -> {completed | cancelled | timedOut | aborted}\<close>.
  The four terminal states are the four values of \<open>InterviewStatus\<close>.
\<close>

datatype lifecycle = Created | Listening | Active | Terminal InterviewStatus

text \<open>
  Modelled from the spec: the Session of section 3 (server.ts is missing): its id, its
  capability token, the ids of the questions that need an answer (every question but
  the \<^verbatim>\<open>info\<close> ones), the answers, the configured timeout in seconds, the start and
  last-heartbeat timestamps in seconds, and the lifecycle state.
\<close>

record session =
  session_id :: string
  session_token :: string
  required :: "string list"
  answers :: "ResponseItem list"
  timeout_seconds :: nat
  startedAt :: int
  lastHeartbeat :: int
  state :: lifecycle

text \<open>
  Modelled from the spec: the routes of section 4.2 with what each request carries; the
  token is the query parameter every route requires, \<open>None\<close> when it is missing.
\<close>

datatype cancel_reason = ReasonUser | ReasonTimeout

datatype route =
    Form
  | Health
  | Heartbeat
  | SubmitAnswers "ResponseItem list"
  | CancelSession "cancel_reason option"
  | Upload string
  | SnapshotSave

record request =
  token_param :: "string option"
  route :: route

datatype response =
    AccessDenied
  | FormDocument "ResponseItem list"
  | HealthOk
  | Accepted
  | AlreadyRecorded InterviewStatus
  | ValidationError "string list"
  | PathReference string
  | SnapshotWritten

text \<open>
  Modelled from the spec: "active begins on the first heartbeat or answer-bearing
  request from a connected browser tab".
\<close>

definition connect :: "session \<Rightarrow> session" where
  "connect s = (if state s = Listening then s\<lparr>state := Active\<rparr> else s)"

text \<open>
  Modelled from the spec: "answers for every interactive question must be present".
  The ids still missing from a submitted answer list.
\<close>

definition missing_answers :: "session \<Rightarrow> ResponseItem list \<Rightarrow> string list" where
  "missing_answers s as = filter (\<lambda>q. q \<notin> set (map item_id as)) (required s)"

text \<open>
  Modelled from the spec: the routes once the token has been accepted. A mutating route
  on a terminal session returns the recorded outcome and changes nothing; Heartbeat
  updates the last-heartbeat timestamp; Submit with every required answer completes the
  session and otherwise is rejected with the session left active; Cancel ends it as
  timed out when the reason is \<^verbatim>\<open>timeout\<close> and as cancelled otherwise; the remaining
  routes leave the session as it is.
\<close>

definition dispatch :: "int \<Rightarrow> session \<Rightarrow> route \<Rightarrow> response \<times> session" where
  "dispatch now s r =
     (case r of
        Form \<Rightarrow> (FormDocument (answers s), s)
      | Health \<Rightarrow> (HealthOk, s)
      | Upload content \<Rightarrow> (PathReference content, s)
      | SnapshotSave \<Rightarrow> (SnapshotWritten, s)
      | Heartbeat \<Rightarrow>
          (case state s of
             Terminal st \<Rightarrow> (AlreadyRecorded st, s)
           | _ \<Rightarrow> (Accepted, (connect s)\<lparr>lastHeartbeat := now\<rparr>))
      | SubmitAnswers as \<Rightarrow>
          (case state s of
             Terminal st \<Rightarrow> (AlreadyRecorded st, s)
           | _ \<Rightarrow>
             (if missing_answers s as = []
              then (Accepted, (connect s)\<lparr>answers := as, state := Terminal Completed\<rparr>)
              else (ValidationError (missing_answers s as), connect s)))
      | CancelSession reason \<Rightarrow>
          (case state s of
             Terminal st \<Rightarrow> (AlreadyRecorded st, s)
           | _ \<Rightarrow>
             (if reason = Some ReasonTimeout
              then (Accepted, s\<lparr>state := Terminal Timeout\<rparr>)
              else (Accepted, s\<lparr>state := Terminal Cancelled\<rparr>))))"

text \<open>
  Modelled from the spec: "Every route requires the session's capability token as a
  query parameter; a missing or mismatched token yields an access-denied response and no
  state mutation [...] and must reject before any other validation runs."
\<close>

definition handle_request :: "int \<Rightarrow> session \<Rightarrow> request \<Rightarrow> response \<times> session" where
  "handle_request now s req =
     (if token_param req \<noteq> Some (session_token s) then (AccessDenied, s)
      else dispatch now s (route req))"

text \<open>
  Modelled from the spec: the watchdog of section 4.4. It fires a cancellation when no
  heartbeat arrived within the grace window of 60 seconds after the session became
  active, and never while the session is only listening. The listener runs no clock of
  its own for the configured timeout (section 4.1).
\<close>

definition grace_window :: int where
  "grace_window = 60"

definition clock :: "int \<Rightarrow> session \<Rightarrow> session" where
  "clock now s =
     (if state s = Active \<and> now - lastHeartbeat s > grace_window
      then s\<lparr>state := Terminal Cancelled\<rparr> else s)"

text \<open>
  Modelled from the spec: "any non-terminal -> aborted: the owning process withdraws the
  session before any terminal state is reached".
\<close>

definition withdraw :: "session \<Rightarrow> session" where
  "withdraw s = (case state s of Terminal _ \<Rightarrow> s | _ \<Rightarrow> s\<lparr>state := Terminal Aborted\<rparr>)"

text \<open>
  Modelled from the spec: what can happen to a listening session: a request arrives at
  some time, time passes, or the owning process withdraws the session.
\<close>

datatype session_event =
    Request int request
  | Clock int
  | Withdraw

fun session_step :: "session \<Rightarrow> session_event \<Rightarrow> session" where
  "session_step s (Request now req) = snd (handle_request now s req)"
| "session_step s (Clock now) = clock now s"
| "session_step s Withdraw = withdraw s"

definition session_run :: "session \<Rightarrow> session_event list \<Rightarrow> session" where
  "session_run s es = foldl session_step s es"

fun is_request :: "session_event \<Rightarrow> bool" where
  "is_request (Request _ _) = True"
| "is_request _ = False"

section \<open>Properties of schema.ts\<close>

subsection \<open>Reading the store after a write\<close>

lemma get_allocated: "get h v k \<noteq> Undefined \<Longrightarrow> allocated h v"
  by (auto simp: get_def allocated_def lookup_def split: val.splits if_splits)

lemma isArray_allocated: "isArray h v \<Longrightarrow> allocated h v"
  by (auto simp: isArray_def allocated_def lookup_def split: val.splits if_splits)

lemma map_of_assign: "map_of (assign k x fs) = (map_of fs)(k \<mapsto> x)"
  by (induction fs) auto

lemma elems_put: "elems (put h q k x) v = elems h v"
  by (auto simp: elems_def put_def lookup_def nth_list_update
      split: val.splits option.splits cell.splits if_splits)

lemma isArray_put: "isArray (put h q k x) v = isArray h v"
  by (auto simp: isArray_def put_def lookup_def nth_list_update
      split: val.splits option.splits cell.splits if_splits)

lemma length_put: "length (put h q k x) = length h"
  by (auto simp: put_def split: val.splits option.splits cell.splits)

lemma get_put_other:
  "(v, k') \<noteq> (q, k) \<Longrightarrow> get (put h q k x) v k' = get h v k'"
  by (auto simp: get_def put_def lookup_def nth_list_update map_of_assign
      split: val.splits option.splits cell.splits if_splits)

lemma get_put_same:
  "get h q k' \<noteq> Undefined \<Longrightarrow> get (put h q k x) q k = x"
  by (auto simp: get_def put_def lookup_def nth_list_update map_of_assign
      split: val.splits option.splits cell.splits if_splits)

lemma get_append: "allocated h v \<Longrightarrow> get (h @ cs) v k = get h v k"
  by (auto simp: get_def allocated_def lookup_def nth_append split: val.splits)

lemma elems_append: "allocated h v \<Longrightarrow> elems (h @ cs) v = elems h v"
  by (auto simp: elems_def allocated_def lookup_def nth_append split: val.splits)

lemma isArray_append: "allocated h v \<Longrightarrow> isArray (h @ cs) v = isArray h v"
  by (auto simp: isArray_def allocated_def lookup_def nth_append split: val.splits)

lemma elems_new: "elems (h @ [Array xs]) (Ref (length h)) = xs"
  by (simp add: elems_def lookup_def)

lemma isArray_new: "isArray (h @ [Array xs]) (Ref (length h))"
  by (simp add: isArray_def lookup_def)

text \<open>What one pass of the loop body leaves of the store.\<close>

lemma question_semantics_cases:
  assumes "question_semantics h q = Inr h'"
  shows "h' =
     (if get h q ''type'' = Str ''multi'' \<and> get h q ''recommended'' \<noteq> Undefined \<and>
         \<not> isArray h (get h q ''recommended'')
      then put (h @ [Array [get h q ''recommended'']]) q ''recommended'' (Ref (length h))
      else h)"
  using assms
  by (auto simp: question_semantics_def Let_def new_array_def
      split: if_splits option.splits)

lemma question_semantics_frame:
  assumes "question_semantics h q = Inr h'" and "allocated h v"
  shows "length h \<le> length h'" and "allocated h' v"
    and "elems h' v = elems h v" and "isArray h' v = isArray h v"
    and "(v, k) \<noteq> (q, ''recommended'') \<Longrightarrow> get h' v k = get h v k"
  using question_semantics_cases [OF assms(1)] assms(2)
  by (auto simp: length_put elems_put isArray_put get_put_other
      get_append elems_append isArray_append allocated_def split: val.splits)

lemma question_semantics_wraps:
  assumes "question_semantics h q = Inr h'"
    and "get h q ''type'' = Str ''multi''" and "get h q ''recommended'' = Str s"
  shows "isArray h' (get h' q ''recommended'') \<and> elems h' (get h' q ''recommended'') = [Str s]"
proof -
  have na: "\<not> isArray h (Str s)" by (simp add: isArray_def)
  have al: "allocated h q" using assms(2) get_allocated [of h q "''type''"] by simp
  from question_semantics_cases [OF assms(1)] assms(2,3) na
  have h': "h' = put (h @ [Array [Str s]]) q ''recommended'' (Ref (length h))"
    by simp
  have "get (h @ [Array [Str s]]) q ''type'' \<noteq> Undefined"
    using al assms(2) by (simp add: get_append)
  then have g: "get h' q ''recommended'' = Ref (length h)"
    unfolding h' by (rule get_put_same)
  show ?thesis
    unfolding g unfolding h' by (simp add: isArray_put elems_put elems_new isArray_new)
qed

text \<open>The whole loop.\<close>

lemma check_questions_frame:
  assumes "check_questions h qs = Inr h'" and "allocated h v"
  shows "allocated h' v \<and> elems h' v = elems h v \<and> isArray h' v = isArray h v \<and>
         (v \<notin> set qs \<or> k \<noteq> ''recommended'' \<longrightarrow> get h' v k = get h v k)"
  using assms
proof (induction qs arbitrary: h)
  case Nil
  then show ?case by simp
next
  case (Cons q qs)
  from Cons.prems(1) obtain h1 where
    1: "question_semantics h q = Inr h1" and 2: "check_questions h1 qs = Inr h'"
    by (auto split: sum.splits)
  note f = question_semantics_frame [OF 1 Cons.prems(2)]
  from Cons.IH [OF 2 f(2)] f(3,4) f(5) [of k]
  show ?case by auto
qed

lemma check_questions_wraps:
  assumes "check_questions h qs = Inr h'" and "distinct qs" and "q \<in> set qs"
    and "get h q ''type'' = Str ''multi''" and "get h q ''recommended'' = Str s"
  shows "isArray h' (get h' q ''recommended'') \<and> elems h' (get h' q ''recommended'') = [Str s]"
  using assms
proof (induction qs arbitrary: h)
  case Nil
  then show ?case by simp
next
  case (Cons p qs)
  from Cons.prems(1) obtain h1 where
    1: "question_semantics h p = Inr h1" and 2: "check_questions h1 qs = Inr h'"
    by (auto split: sum.splits)
  have al: "allocated h q"
    using Cons.prems(4) get_allocated [of h q "''type''"] by simp
  show ?case
  proof (cases "q = p")
    case True
    with Cons.prems(2) have notin: "q \<notin> set qs" by simp
    from question_semantics_wraps [OF 1] True Cons.prems(4,5)
    have w: "isArray h1 (get h1 q ''recommended'')"
      "elems h1 (get h1 q ''recommended'') = [Str s]" by simp_all
    have al1: "allocated h1 q"
      using question_semantics_frame(2) [OF 1 al] .
    from check_questions_frame [OF 2 al1, of "''recommended''"] notin
    have g: "get h' q ''recommended'' = get h1 q ''recommended''" by simp
    from check_questions_frame [OF 2 isArray_allocated [OF w(1)], of "''recommended''"] w
    show ?thesis unfolding g by simp
  next
    case False
    with Cons.prems(3) have in_qs: "q \<in> set qs" by simp
    from question_semantics_frame(5) [OF 1 al, of "''type''"] Cons.prems(4)
    have t: "get h1 q ''type'' = Str ''multi''" by simp
    from question_semantics_frame(5) [OF 1 al, of "''recommended''"] False Cons.prems(5)
    have r: "get h1 q ''recommended'' = Str s" by simp
    from Cons.prems(2) have d: "distinct qs" by simp
    from Cons.IH [OF 2 d in_qs t r] show ?thesis .
  qed
qed

lemma unique_ids_fresh:
  "unique_ids h qs ids = Inr u \<Longrightarrow>
   distinct (map (\<lambda>q. get h q ''id'') qs) \<and> (\<forall>q \<in> set qs. get h q ''id'' \<notin> ids)"
proof (induction qs arbitrary: ids)
  case Nil
  then show ?case by simp
next
  case (Cons a qs)
  from Cons.prems have n: "get h a ''id'' \<notin> ids"
    and t: "unique_ids h qs (insert (get h a ''id'') ids) = Inr u"
    by (simp_all split: if_splits)
  from Cons.IH [OF t] n show ?case by auto
qed

lemma unique_ids_distinct:
  assumes "unique_ids h qs ids = Inr u"
  shows "distinct qs"
  using unique_ids_fresh [OF assms] by (simp add: distinct_map)

lemma validateBasicStructure_returns_input:
  "validateBasicStructure h data = Inr parsed \<Longrightarrow>
   parsed = data \<and> isArray h (get h data ''questions'')"
  by (auto simp: validateBasicStructure_def Let_def split: if_splits sum.splits)

text \<open>
  C10. When \<open>validateQuestions\<close> accepts a document it returns the reference it was
  given, so the caller's object is the returned one; that object still has the same
  questions, and every question of type multi whose \<^verbatim>\<open>recommended\<close> was a single
  string now has, in the store the call left, a \<^verbatim>\<open>recommended\<close> that is the array
  holding just that string.
\<close>

theorem validateQuestions_normalizes_in_place:
  assumes "validateQuestions h data = Inr (r, h')"
  shows "r = data \<and>
         elems h' (get h' r ''questions'') = elems h (get h data ''questions'') \<and>
         (\<forall>q \<in> set (elems h (get h data ''questions'')). \<forall>s.
            get h q ''type'' = Str ''multi'' \<and> get h q ''recommended'' = Str s \<longrightarrow>
            isArray h' (get h' q ''recommended'') \<and>
            elems h' (get h' q ''recommended'') = [Str s])"
proof -
  let ?qs = "elems h (get h data ''questions'')"
  from assms obtain parsed u where
    b: "validateBasicStructure h data = Inr parsed"
    and i: "unique_ids h (elems h (get h parsed ''questions'')) {} = Inr u"
    and c: "check_questions h (elems h (get h parsed ''questions'')) = Inr h'"
    and r: "r = parsed"
    by (auto simp: validateQuestions_def split: sum.splits)
  from validateBasicStructure_returns_input [OF b]
  have p: "parsed = data" and arr: "isArray h (get h data ''questions'')" by simp_all
  have d: "distinct ?qs" using unique_ids_distinct i p by simp
  have c': "check_questions h ?qs = Inr h'" using c p by simp
  have ad: "allocated h data"
    using arr get_allocated [of h data "''questions''"]
    by (auto simp: isArray_def split: val.splits)
  from check_questions_frame [OF c' ad, of "''questions''"]
  have g: "get h' data ''questions'' = get h data ''questions''" by simp
  from check_questions_frame [OF c' isArray_allocated [OF arr], of "''questions''"]
  have e: "elems h' (get h data ''questions'') = ?qs" by simp
  show ?thesis
    using r p g e check_questions_wraps [OF c' d] by auto
qed

theorem validateQuestions_normalizes_in_place_witness:
  "validateQuestions two_questions (Ref 0) = Inr (Ref 0, two_questions_validated) \<and>
   Ref 2 \<in> set (elems two_questions (get two_questions (Ref 0) ''questions'')) \<and>
   get two_questions (Ref 2) ''type'' = Str ''multi'' \<and>
   get two_questions (Ref 2) ''recommended'' = Str ''X'' \<and>
   isArray two_questions_validated (get two_questions_validated (Ref 2) ''recommended'') \<and>
   elems two_questions_validated (get two_questions_validated (Ref 2) ''recommended'') =
     [Str ''X'']"
proof -
  have run: "validateQuestions two_questions (Ref 0) = Inr (Ref 0, two_questions_validated)"
    by code_simp
  have q: "Ref 2 \<in> set (elems two_questions (get two_questions (Ref 0) ''questions''))"
    by code_simp
  have t: "get two_questions (Ref 2) ''type'' = Str ''multi''"
    and r: "get two_questions (Ref 2) ''recommended'' = Str ''X''"
    by code_simp+
  from validateQuestions_normalizes_in_place [OF run] q t r
  have "isArray two_questions_validated
          (get two_questions_validated (Ref 2) ''recommended'') \<and>
        elems two_questions_validated
          (get two_questions_validated (Ref 2) ''recommended'') = [Str ''X'']"
    by blast
  with run q t r show ?thesis by blast
qed

section \<open>Properties of loader.ts\<close>

subsection \<open>Path resolution of decoded answers\<close>

lemma expandHome_rule:
  "expandHome N p = (if home_relative p then home_expansion N p else p)"
  by (auto simp: expandHome_def home_relative_def home_expansion_def)

lemma resolveImagePath_rule:
  "resolveImagePath N h (Str p) baseDir = Inr (Str (resolution_rule N baseDir p))"
  by (auto simp: resolveImagePath_def resolution_rule_def expandHome_rule Let_def)

lemma resolve_each_strings:
  "resolve_each N h (map Str ps) baseDir =
     Inr (map (\<lambda>p. Str (resolution_rule N baseDir p)) ps)"
  by (induction ps) (simp_all add: resolveImagePath_rule)

lemma those_strings:
  "those (map (\<lambda>x. case x of Str s \<Rightarrow> Some s | _ \<Rightarrow> None) xs) = Some ps \<Longrightarrow> xs = map Str ps"
  by (induction xs arbitrary: ps) (auto split: val.splits option.splits)

lemma those_Str:
  "those (map (\<lambda>x. case x of Str s \<Rightarrow> Some s | _ \<Rightarrow> None) (map Str ps)) = Some ps"
  by (induction ps) auto

lemma as_strings_Some:
  "as_strings h v = Some ps \<Longrightarrow> isArray h v \<and> elems h v = map Str ps"
  by (auto simp: as_strings_def dest: those_strings split: if_splits)

lemma as_strings_new:
  "as_strings (h @ [Array (map Str ps)]) (Ref (length h)) = Some ps"
  by (simp only: as_strings_def isArray_new elems_new those_Str if_True)

lemma as_strings_append:
  assumes "as_strings h v = Some ps"
  shows "as_strings (h @ k) v = Some ps"
proof -
  from assms have a: "isArray h v"
    by (simp add: as_strings_def split: if_splits)
  then have "allocated h v" by (rule isArray_allocated)
  with assms a show ?thesis
    by (simp add: as_strings_def isArray_append elems_append)
qed

lemma as_value_append:
  "as_value h v = Some a \<Longrightarrow> as_value (h @ k) v = Some a"
  by (auto simp: as_value_def dest: as_strings_append split: val.splits)

lemma as_attachments_append:
  "as_attachments h v = Some a \<Longrightarrow> as_attachments (h @ k) v = Some a"
  by (auto simp: as_attachments_def dest: as_strings_append split: val.splits)

lemma as_ResponseItem_append:
  assumes "as_ResponseItem h v = Some it"
  shows "as_ResponseItem (h @ k) v = Some it"
proof -
  from assms have "get h v ''id'' \<noteq> Undefined"
    by (auto simp: as_ResponseItem_def split: val.splits)
  then have g: "\<And>f. get (h @ k) v f = get h v f"
    by (simp add: get_allocated get_append)
  from assms show ?thesis
    by (auto simp: as_ResponseItem_def g as_value_append as_attachments_append
        split: val.splits option.splits)
qed

lemma isArray_Str: "\<not> isArray h (Str s)"
  by (simp add: isArray_def)

lemma resolvePathValue_typed:
  assumes "as_value h x = Some a"
  shows "\<exists>v k. resolvePathValue N h x dir = Inr (v, h @ k) \<and>
           as_value (h @ k) v =
             Some (case a of
                     Text s \<Rightarrow> Text (resolution_rule N dir s)
                   | Items ps \<Rightarrow> Items (map (resolution_rule N dir) ps))"
proof (cases "\<exists>s. x = Str s")
  case True
  then obtain s where x: "x = Str s" ..
  with assms have a: "a = Text s" by (simp add: as_value_def)
  have "resolvePathValue N h x dir = Inr (Str (resolution_rule N dir s), h @ [])"
    by (auto simp: x resolvePathValue_def isArray_Str resolveImagePath_rule
        resolution_rule_def)
  moreover have "as_value (h @ []) (Str (resolution_rule N dir s)) =
      Some (Text (resolution_rule N dir s))"
    by (simp add: as_value_def)
  ultimately show ?thesis unfolding a by (metis answer_value.simps(5))
next
  case False
  with assms obtain ps where s: "as_strings h x = Some ps" and a: "a = Items ps"
    by (auto simp: as_value_def split: val.splits)
  from as_strings_Some [OF s] have arr: "isArray h x" and el: "elems h x = map Str ps"
    by simp_all
  have m: "map (\<lambda>p. Str (resolution_rule N dir p)) ps =
           map Str (map (resolution_rule N dir) ps)"
    by simp
  have "resolvePathValue N h x dir =
          Inr (Ref (length h), h @ [Array (map Str (map (resolution_rule N dir) ps))])"
    by (simp add: resolvePathValue_def arr el resolve_each_strings new_array_def m
        del: map_map)
  moreover have "as_value (h @ [Array (map Str (map (resolution_rule N dir) ps))])
      (Ref (length h)) = Some (Items (map (resolution_rule N dir) ps))"
    by (simp add: as_value_def as_strings_new del: map_map)
  ultimately show ?thesis unfolding a by (metis answer_value.simps(6))
qed

lemma resolve_attachments_typed:
  assumes "as_attachments h x = Some a"
  shows "\<exists>v k. resolve_attachments N h x dir = Inr (v, h @ k) \<and>
           as_attachments (h @ k) v = Some (map_option (map (resolution_rule N dir)) a)"
proof (cases "x = Undefined")
  case True
  with assms have a: "a = None" by (simp add: as_attachments_def)
  have "resolve_attachments N h x dir = Inr (Undefined, h @ [])"
    by (simp add: True resolve_attachments_def)
  moreover have "as_attachments (h @ []) Undefined = Some None"
    by (simp add: as_attachments_def)
  ultimately show ?thesis unfolding a by (metis option.map_disc_iff)
next
  case False
  with assms obtain ps where s: "as_strings h x = Some ps" and a: "a = Some ps"
    by (auto simp: as_attachments_def split: val.splits)
  from as_strings_Some [OF s] have arr: "isArray h x" and el: "elems h x = map Str ps"
    by simp_all
  from arr have nn: "x \<noteq> Null" by (auto simp: isArray_def)
  have m: "map (\<lambda>p. Str (resolution_rule N dir p)) ps =
           map Str (map (resolution_rule N dir) ps)"
    by simp
  have "resolve_attachments N h x dir =
          Inr (Ref (length h), h @ [Array (map Str (map (resolution_rule N dir) ps))])"
    by (simp add: resolve_attachments_def False nn arr el resolve_each_strings new_array_def
        m del: map_map)
  moreover have "as_attachments (h @ [Array (map Str (map (resolution_rule N dir) ps))])
      (Ref (length h)) = Some (Some (map (resolution_rule N dir) ps))"
    by (simp add: as_attachments_def as_strings_new del: map_map)
  ultimately show ?thesis unfolding a by (metis option.simps(9))
qed

lemma get_own_properties:
  "get h v k \<noteq> Undefined \<Longrightarrow>
   get h v k' = (case map_of (own_properties h v) k' of Some x \<Rightarrow> x | None \<Rightarrow> Undefined)"
  by (auto simp: get_def own_properties_def split: val.splits option.splits cell.splits)

lemma get_new_object:
  "get (h @ [Object fs]) (Ref (length h)) k =
     (case map_of fs k of Some x \<Rightarrow> x | None \<Rightarrow> Undefined)"
  by (simp add: get_def lookup_def)

lemma resolve_answer_typed:
  assumes "as_ResponseItem h ans = Some it"
  shows "\<exists>y k. resolve_answer N h ans dir = Inr (y, h @ k) \<and>
           as_ResponseItem (h @ k) y = Some (resolved_item N dir it)"
proof -
  from assms obtain i a att where
    id: "get h ans ''id'' = Str i" and
    va: "as_value h (get h ans ''value'') = Some a" and
    at: "as_attachments h (get h ans ''attachments'') = Some att" and
    it: "it = \<lparr>item_id = i, item_value = a, item_attachments = att\<rparr>"
    by (auto simp: as_ResponseItem_def split: val.splits option.splits)
  from id have ne: "get h ans ''id'' \<noteq> Undefined" by simp
  then have al: "allocated h ans" by (rule get_allocated)
  from ne have nn: "ans \<noteq> Null" "ans \<noteq> Undefined" by (auto simp: get_def)
  let ?fs = "own_properties h ans"
  from get_own_properties [OF ne, of "''id''"] id
  have fid: "(case map_of ?fs ''id'' of Some x \<Rightarrow> x | None \<Rightarrow> Undefined) = Str i"
    by simp
  let ?a' = "case a of Text s \<Rightarrow> Text (resolution_rule N dir s)
                     | Items ps \<Rightarrow> Items (map (resolution_rule N dir) ps)"
  from resolvePathValue_typed [OF va, of N dir] obtain v k1 where
    r1: "resolvePathValue N h (get h ans ''value'') dir = Inr (v, h @ k1)" and
    v: "as_value (h @ k1) v = Some ?a'"
    by blast
  have "as_attachments (h @ k1) (get (h @ k1) ans ''attachments'') = Some att"
    using at al by (simp add: get_append as_attachments_append)
  from resolve_attachments_typed [OF this, of N dir] obtain v2 k2 where
    r2: "resolve_attachments N (h @ k1) (get (h @ k1) ans ''attachments'') dir =
           Inr (v2, (h @ k1) @ k2)" and
    v2: "as_attachments ((h @ k1) @ k2) v2 =
           Some (map_option (map (resolution_rule N dir)) att)"
    by blast
  let ?F = "assign ''attachments'' v2 (assign ''value'' v ?fs)"
  let ?H = "(h @ k1) @ k2"
  have res: "resolve_answer N h ans dir = Inr (Ref (length ?H), h @ (k1 @ k2 @ [Object ?F]))"
    using nn by (simp add: resolve_answer_def r1 r2 new_object_def)
  have H: "h @ (k1 @ k2 @ [Object ?F]) = ?H @ [Object ?F]" by simp
  have g1: "get (?H @ [Object ?F]) (Ref (length ?H)) ''id'' = Str i"
    unfolding get_new_object using fid by (simp add: map_of_assign)
  have g2: "get (?H @ [Object ?F]) (Ref (length ?H)) ''value'' = v"
    unfolding get_new_object by (simp add: map_of_assign)
  have g3: "get (?H @ [Object ?F]) (Ref (length ?H)) ''attachments'' = v2"
    unfolding get_new_object by (simp add: map_of_assign)
  have w1: "as_value (?H @ [Object ?F]) v = Some ?a'"
    using as_value_append [OF v, of "k2 @ [Object ?F]"] by simp
  have w2: "as_attachments (?H @ [Object ?F]) v2 =
              Some (map_option (map (resolution_rule N dir)) att)"
    using as_attachments_append [OF v2, of "[Object ?F]"] by simp
  have "as_ResponseItem (?H @ [Object ?F]) (Ref (length ?H)) = Some (resolved_item N dir it)"
    unfolding as_ResponseItem_def g1 g2 g3 w1 w2
    by (simp add: resolved_item_def it)
  with res H show ?thesis by metis
qed

lemma those_as_ResponseItem_append:
  "those (map (as_ResponseItem h) xs) = Some its \<Longrightarrow>
   those (map (as_ResponseItem (h @ k)) xs) = Some its"
proof (induction xs arbitrary: its)
  case Nil
  then show ?case by simp
next
  case (Cons x xs)
  from Cons.prems obtain it rest where
    x: "as_ResponseItem h x = Some it" and
    xs: "those (map (as_ResponseItem h) xs) = Some rest" and
    its: "its = it # rest"
    by (auto split: option.splits)
  from as_ResponseItem_append [OF x, of k] Cons.IH [OF xs] its show ?case
    by simp
qed

lemma resolve_answers_typed:
  "those (map (as_ResponseItem h) xs) = Some its \<Longrightarrow>
   \<exists>ys k. resolve_answers N h xs dir = Inr (ys, h @ k) \<and>
     those (map (as_ResponseItem (h @ k)) ys) = Some (map (resolved_item N dir) its)"
proof (induction xs arbitrary: h its)
  case Nil
  then have "its = []" by simp
  then have "resolve_answers N h [] dir = Inr ([], h @ []) \<and>
     those (map (as_ResponseItem (h @ [])) []) = Some (map (resolved_item N dir) its)"
    by simp
  then show ?case by blast
next
  case (Cons x xs)
  from Cons.prems obtain it rest where
    x: "as_ResponseItem h x = Some it" and
    xs: "those (map (as_ResponseItem h) xs) = Some rest" and
    its: "its = it # rest"
    by (auto split: option.splits)
  from resolve_answer_typed [OF x, of N dir] obtain y k1 where
    r1: "resolve_answer N h x dir = Inr (y, h @ k1)" and
    y: "as_ResponseItem (h @ k1) y = Some (resolved_item N dir it)"
    by blast
  from those_as_ResponseItem_append [OF xs]
  have "those (map (as_ResponseItem (h @ k1)) xs) = Some rest" .
  from Cons.IH [OF this] obtain ys k2 where
    r2: "resolve_answers N (h @ k1) xs dir = Inr (ys, (h @ k1) @ k2)" and
    ys: "those (map (as_ResponseItem ((h @ k1) @ k2)) ys) =
           Some (map (resolved_item N dir) rest)"
    by blast
  have "resolve_answers N h (x # xs) dir = Inr (y # ys, h @ (k1 @ k2))"
    by (simp add: r1 r2)
  moreover have "those (map (as_ResponseItem (h @ (k1 @ k2))) (y # ys)) =
      Some (map (resolved_item N dir) its)"
    using as_ResponseItem_append [OF y, of k2] ys by (simp add: its)
  ultimately show ?case by blast
qed

lemma resolvePathValue_grows:
  "resolvePathValue N h v dir = Inr (r, h1) \<Longrightarrow> \<exists>k. h1 = h @ k"
  by (auto simp: resolvePathValue_def new_array_def split: sum.splits if_splits)

lemma resolve_attachments_grows:
  "resolve_attachments N h v dir = Inr (r, h1) \<Longrightarrow> \<exists>k. h1 = h @ k"
  by (auto simp: resolve_attachments_def new_array_def split: sum.splits if_splits)

lemma resolve_answer_grows:
  assumes "resolve_answer N h ans dir = Inr (y, h1)"
  shows "\<exists>k. h1 = h @ k"
proof -
  from assms obtain v ha att hb where
    a: "resolvePathValue N h (get h ans ''value'') dir = Inr (v, ha)" and
    b: "resolve_attachments N ha (get ha ans ''attachments'') dir = Inr (att, hb)" and
    c: "h1 = hb @ [Object (assign ''attachments'' att (assign ''value'' v (own_properties h ans)))]"
    by (auto simp: resolve_answer_def new_object_def split: sum.splits if_splits prod.splits)
  from resolvePathValue_grows [OF a] resolve_attachments_grows [OF b] c
  show ?thesis by auto
qed

lemma resolve_answer_reads:
  assumes "resolve_answer N h ans dir = Inr (y, h1)"
    and "as_ResponseItem h ans = Some it"
  shows "as_ResponseItem h1 y = Some (resolved_item N dir it)"
  using resolve_answer_typed [OF assms(2), of N dir] assms(1) by auto

lemma resolve_answers_reads:
  "resolve_answers N h xs dir = Inr (ys, h1) \<Longrightarrow>
   (\<exists>k. h1 = h @ k) \<and>
   list_all2
     (\<lambda>x y. \<forall>it. as_ResponseItem h x = Some it \<longrightarrow>
              as_ResponseItem h1 y = Some (resolved_item N dir it))
     xs ys"
proof (induction xs arbitrary: h ys)
  case Nil
  then show ?case by simp
next
  case (Cons x xs)
  from Cons.prems obtain y ha rest where
    a: "resolve_answer N h x dir = Inr (y, ha)" and
    b: "resolve_answers N ha xs dir = Inr (rest, h1)" and
    ys: "ys = y # rest"
    by (auto split: sum.splits prod.splits)
  from resolve_answer_grows [OF a] obtain k1 where ha: "ha = h @ k1" ..
  from Cons.IH [OF b] obtain k2 where
    h1: "h1 = ha @ k2" and
    r: "list_all2
          (\<lambda>x y. \<forall>it. as_ResponseItem ha x = Some it \<longrightarrow>
                   as_ResponseItem h1 y = Some (resolved_item N dir it))
          xs rest"
    by blast
  have hd: "\<forall>it. as_ResponseItem h x = Some it \<longrightarrow>
              as_ResponseItem h1 y = Some (resolved_item N dir it)"
    using resolve_answer_reads [OF a] as_ResponseItem_append [of ha y _ k2] h1 by blast
  have tl: "list_all2
          (\<lambda>x y. \<forall>it. as_ResponseItem h x = Some it \<longrightarrow>
                   as_ResponseItem h1 y = Some (resolved_item N dir it))
          xs rest"
    using r
  proof (rule list_all2_mono)
    fix u w
    assume "\<forall>it. as_ResponseItem ha u = Some it \<longrightarrow>
              as_ResponseItem h1 w = Some (resolved_item N dir it)"
    then show "\<forall>it. as_ResponseItem h u = Some it \<longrightarrow>
              as_ResponseItem h1 w = Some (resolved_item N dir it)"
      using as_ResponseItem_append [of h u _ k1] ha by blast
  qed
  from hd tl ha h1 ys show ?case by auto
qed

lemma read_savedFrom_grows: "read_savedFrom h raw = (sf, h') \<Longrightarrow> \<exists>k. h' = h @ k"
  by (auto simp: read_savedFrom_def new_object_def Let_def split: if_splits)

lemma loadSavedInterview_after_answers:
  assumes "script_match html = Some block"
    and "JSON_parse N block = Some j"
    and "build j h = (data, h1)"
    and "validateQuestions h1 data = Inr (validated, h2)"
    and "(if isArray h2 (get h2 data ''savedAnswers'')
          then resolveAnswerPaths N h2 (get h2 data ''savedAnswers'') (path_dirname N filePath)
          else Inr (Undefined, h2)) = Inr (sa, h3)"
  shows "\<exists>k loaded. loadSavedInterview N h html filePath = Inr (loaded, h3 @ k) \<and>
           get (h3 @ k) loaded ''savedAnswers'' = sa"
proof -
  obtain sf h4 where sf: "read_savedFrom h3 data = (sf, h4)"
    by (cases "read_savedFrom h3 data")
  from read_savedFrom_grows [OF sf] obtain k0 where h4: "h4 = h3 @ k0" ..
  let ?F = "assign ''savedFrom'' sf
              (assign ''wasSubmitted''
                 (if typeof (get h4 data ''wasSubmitted'') = TBoolean
                  then get h4 data ''wasSubmitted'' else Undefined)
                (assign ''savedAt''
                   (if typeof (get h4 data ''savedAt'') = TString
                    then get h4 data ''savedAt'' else Undefined)
                  (assign ''savedAnswers'' sa (own_properties h4 validated))))"
  have "loadSavedInterview N h html filePath = Inr (Ref (length h4), h4 @ [Object ?F])"
    using assms(5)
    by (simp add: loadSavedInterview_def assms(1-4) Let_def sf new_object_def)
  moreover have "get (h4 @ [Object ?F]) (Ref (length h4)) ''savedAnswers'' = sa"
    unfolding get_new_object by (simp add: map_of_assign)
  ultimately show ?thesis unfolding h4 by (metis append.assoc)
qed

lemma loadSavedInterview_answers_step:
  assumes "script_match html = Some block"
    and "JSON_parse N block = Some j"
    and "build j h = (data, h1)"
    and "validateQuestions h1 data = Inr (validated, h2)"
    and "loadSavedInterview N h html filePath = Inr (loaded, h')"
  shows "\<exists>sa h3. (if isArray h2 (get h2 data ''savedAnswers'')
          then resolveAnswerPaths N h2 (get h2 data ''savedAnswers'') (path_dirname N filePath)
          else Inr (Undefined, h2)) = Inr (sa, h3)"
proof (cases "if isArray h2 (get h2 data ''savedAnswers'')
          then resolveAnswerPaths N h2 (get h2 data ''savedAnswers'') (path_dirname N filePath)
          else Inr (Undefined, h2)")
  case (Inl e)
  with assms(5) show ?thesis
    by (simp add: loadSavedInterview_def assms(1-4) Let_def)
next
  case (Inr p)
  then show ?thesis by (cases p) simp
qed

lemma isArray_grown: "isArray (h @ [Array xs] @ k) (Ref (length h))"
  by (simp add: isArray_def lookup_def nth_append)

lemma elems_grown: "elems (h @ [Array xs] @ k) (Ref (length h)) = xs"
  by (simp add: elems_def lookup_def nth_append)

lemma decoded_typed:
  assumes "script_match html = Some block"
    and "JSON_parse N block = Some j"
    and "build j h = (data, h1)"
    and "validateQuestions h1 data = Inr (validated, h2)"
    and "as_ResponseItems h2 (get h2 data ''savedAnswers'') = Some items"
  shows "\<exists>loaded h'. loadSavedInterview N h html filePath = Inr (loaded, h') \<and>
           as_ResponseItems h' (get h' loaded ''savedAnswers'') =
             Some (map (resolved_item N (path_dirname N filePath)) items)"
proof -
  let ?sa = "get h2 data ''savedAnswers''" and ?dir = "path_dirname N filePath"
  from assms(5) have arr: "isArray h2 ?sa"
    and its: "those (map (as_ResponseItem h2) (elems h2 ?sa)) = Some items"
    by (auto simp: as_ResponseItems_def split: if_splits)
  from resolve_answers_typed [OF its, of N ?dir] obtain ys k where
    r: "resolve_answers N h2 (elems h2 ?sa) ?dir = Inr (ys, h2 @ k)" and
    ys: "those (map (as_ResponseItem (h2 @ k)) ys) = Some (map (resolved_item N ?dir) items)"
    by blast
  let ?h3 = "(h2 @ k) @ [Array ys]"
  have "(if isArray h2 ?sa then resolveAnswerPaths N h2 ?sa ?dir else Inr (Undefined, h2)) =
          Inr (Ref (length (h2 @ k)), ?h3)"
    using arr by (simp add: resolveAnswerPaths_def r new_array_def)
  from loadSavedInterview_after_answers [OF assms(1-4) this] obtain k' loaded where
    l: "loadSavedInterview N h html filePath = Inr (loaded, ?h3 @ k')" and
    g: "get (?h3 @ k') loaded ''savedAnswers'' = Ref (length (h2 @ k))"
    by blast
  have h': "?h3 @ k' = (h2 @ k) @ [Array ys] @ k'" by simp
  from g have g': "get ((h2 @ k) @ [Array ys] @ k') loaded ''savedAnswers'' =
      Ref (length (h2 @ k))"
    unfolding h' .
  have "as_ResponseItems (?h3 @ k') (get (?h3 @ k') loaded ''savedAnswers'') =
          Some (map (resolved_item N ?dir) items)"
    unfolding as_ResponseItems_def h' g'
    using those_as_ResponseItem_append [OF ys, of "[Array ys] @ k'"]
    by (simp only: isArray_grown elems_grown if_True)
  with l show ?thesis by blast
qed

lemma decoded_itemwise:
  assumes "script_match html = Some block"
    and "JSON_parse N block = Some j"
    and "build j h = (data, h1)"
    and "validateQuestions h1 data = Inr (validated, h2)"
    and "loadSavedInterview N h html filePath = Inr (loaded, h')"
    and "isArray h2 (get h2 data ''savedAnswers'')"
  shows "list_all2
           (\<lambda>x y. \<forall>it. as_ResponseItem h2 x = Some it \<longrightarrow>
                    as_ResponseItem h' y =
                      Some (resolved_item N (path_dirname N filePath) it))
           (elems h2 (get h2 data ''savedAnswers''))
           (elems h' (get h' loaded ''savedAnswers''))"
proof -
  let ?sa = "get h2 data ''savedAnswers''" and ?dir = "path_dirname N filePath"
  from loadSavedInterview_answers_step [OF assms(1-5)] assms(6) obtain sa h3 where
    s: "resolveAnswerPaths N h2 ?sa ?dir = Inr (sa, h3)"
    by auto
  then obtain ys ha where
    r: "resolve_answers N h2 (elems h2 ?sa) ?dir = Inr (ys, ha)" and
    sa: "sa = Ref (length ha)" and h3: "h3 = ha @ [Array ys]"
    by (auto simp: resolveAnswerPaths_def new_array_def split: sum.splits prod.splits)
  from s assms(6) have
    "(if isArray h2 ?sa then resolveAnswerPaths N h2 ?sa ?dir else Inr (Undefined, h2)) =
       Inr (sa, h3)" by simp
  from loadSavedInterview_after_answers [OF assms(1-4) this] assms(5) obtain k' where
    h': "h' = h3 @ k'" and g: "get h' loaded ''savedAnswers'' = sa"
    by auto
  have hh: "h' = ha @ [Array ys] @ k'" by (simp add: h' h3)
  have el: "elems h' (get h' loaded ''savedAnswers'') = ys"
    unfolding g sa unfolding hh by (rule elems_grown)
  from resolve_answers_reads [OF r] have
    rel: "list_all2
          (\<lambda>x y. \<forall>it. as_ResponseItem h2 x = Some it \<longrightarrow>
                   as_ResponseItem ha y = Some (resolved_item N ?dir it))
          (elems h2 ?sa) ys"
    by blast
  show ?thesis
    unfolding el using rel
  proof (rule list_all2_mono)
    fix u w
    assume "\<forall>it. as_ResponseItem h2 u = Some it \<longrightarrow>
              as_ResponseItem ha w = Some (resolved_item N ?dir it)"
    then show "\<forall>it. as_ResponseItem h2 u = Some it \<longrightarrow>
              as_ResponseItem h' w = Some (resolved_item N ?dir it)"
      using as_ResponseItem_append [of ha w _ "[Array ys] @ k'"] hh by blast
  qed
qed

text \<open>
  C5, amended. Let the data block of a snapshot document parse and its question document
  validate, leaving the store \<open>h2\<close>. When the embedded \<^verbatim>\<open>savedAnswers\<close> are answers
  (each an id, a string or a list of strings as value, and optionally a list of strings
  as attachments), decoding succeeds and returns these answers with every value, every
  element of a list value and every attachment replaced by what \<open>resolution_rule\<close>
  gives for it against the directory of the snapshot document. Whenever decoding
  succeeds on an array of \<^verbatim>\<open>savedAnswers\<close>, the returned array has an element for each
  embedded one, in order, and each embedded element that is an answer is returned
  resolved in this way. On a string, \<^verbatim>\<open>resolveImagePath\<close> is \<open>resolution_rule\<close>: the
  empty path and a path containing \<^verbatim>\<open>://\<close> are untouched, a home-relative path with an
  absolute expansion is replaced by the expansion, any other absolute path is kept, and
  everything else is joined onto the base directory.
\<close>

theorem decoded_answers_follow_rule:
  assumes "script_match html = Some block"
    and "JSON_parse N block = Some j"
    and "build j h = (data, h1)"
    and "validateQuestions h1 data = Inr (validated, h2)"
  shows "(\<forall>items.
            as_ResponseItems h2 (get h2 data ''savedAnswers'') = Some items \<longrightarrow>
            (\<exists>loaded h'.
               loadSavedInterview N h html filePath = Inr (loaded, h') \<and>
               as_ResponseItems h' (get h' loaded ''savedAnswers'') =
                 Some (map (resolved_item N (path_dirname N filePath)) items))) \<and>
         (\<forall>loaded h'.
            loadSavedInterview N h html filePath = Inr (loaded, h') \<and>
            isArray h2 (get h2 data ''savedAnswers'') \<longrightarrow>
            list_all2
              (\<lambda>x y. \<forall>it. as_ResponseItem h2 x = Some it \<longrightarrow>
                       as_ResponseItem h' y =
                         Some (resolved_item N (path_dirname N filePath) it))
              (elems h2 (get h2 data ''savedAnswers''))
              (elems h' (get h' loaded ''savedAnswers''))) \<and>
         (\<forall>p baseDir.
            resolveImagePath N h (Str p) baseDir = Inr (Str (resolution_rule N baseDir p)))"
  using decoded_typed [OF assms] decoded_itemwise [OF assms] resolveImagePath_rule
  by blast

text \<open>
  C5, as stated, fails. The snapshot \<^verbatim>\<open>/snap/shots.html\<close> holds the answer
  \<^verbatim>\<open>~/shots/a.png\<close> with the attachments \<^verbatim>\<open>notes/b.png\<close> and
  \<^verbatim>\<open>data:image/png;base64,AAAA\<close>. The first has no URI scheme and is not absolute, and
  the rule of the specification resolves it against the snapshot's directory; decoding
  resolves it against the home directory. The last has a URI scheme, and the rule of the
  specification leaves it untouched; decoding joins it onto the snapshot's directory,
  since it does not contain \<^verbatim>\<open>://\<close>.
\<close>

theorem home_relative_path_counterexample:
  "(case loadSavedInterview shots_node [] shots_html ''/snap/shots.html'' of
      Inl e \<Rightarrow> None
    | Inr (loaded, h') \<Rightarrow> as_ResponseItems h' (get h' loaded ''savedAnswers'')) =
     Some [\<lparr>item_id = ''q1'', item_value = Text ''/home/u/shots/a.png'',
            item_attachments =
              Some [''/snap/notes/b.png'', ''/snap/data:image/png;base64,AAAA'']\<rparr>] \<and>
   path_dirname shots_node ''/snap/shots.html'' = ''/snap'' \<and>
   spec_resolution_rule shots_node ''/snap'' ''~/shots/a.png'' = ''/snap/~/shots/a.png'' \<and>
   ''/home/u/shots/a.png'' \<noteq> ''/snap/~/shots/a.png'' \<and>
   has_uri_scheme ''data:image/png;base64,AAAA'' \<and>
   spec_resolution_rule shots_node ''/snap'' ''data:image/png;base64,AAAA'' =
     ''data:image/png;base64,AAAA'' \<and>
   ''/snap/data:image/png;base64,AAAA'' \<noteq> ''data:image/png;base64,AAAA''"
  by code_simp

subsection \<open>The two ways decoding fails before validation\<close>

lemma startsWith_iff: "startsWith s p = (\<exists>ys. s = p @ ys)"
proof
  assume "startsWith s p"
  then have "s = p @ drop (length p) s"
    by (metis append_take_drop_id startsWith_def)
  then show "\<exists>ys. s = p @ ys" ..
next
  assume "\<exists>ys. s = p @ ys"
  then show "startsWith s p" by (auto simp: startsWith_def)
qed

lemma str_includes_iff: "str_includes s p = (\<exists>xs ys. s = xs @ p @ ys)"
proof (induction s)
  case Nil
  then show ?case by auto
next
  case (Cons c cs)
  have "(\<exists>xs ys. c # cs = xs @ p @ ys) =
        ((\<exists>ys. c # cs = p @ ys) \<or> (\<exists>xs ys. cs = xs @ p @ ys))"
    by (auto simp: Cons_eq_append_conv)
  with Cons show ?case by (simp add: startsWith_iff)
qed

lemma somewhere_suffix: "somewhere P s \<Longrightarrow> \<exists>pre t. s = pre @ t \<and> P t"
proof (induction s)
  case Nil
  then show ?case by simp
next
  case (Cons c cs)
  show ?case
  proof (cases "P (c # cs)")
    case True
    then have "c # cs = [] @ (c # cs) \<and> P (c # cs)" by simp
    then show ?thesis by blast
  next
    case False
    with Cons obtain pre t where "cs = pre @ t" "P t" by auto
    then have "c # cs = (c # pre) @ t \<and> P t" by simp
    then show ?thesis by blast
  qed
qed

lemma ci_prefix_take: "ci_prefix p s \<Longrightarrow> map lower (take (length p) s) = map lower p"
  by (induction p s rule: ci_prefix.induct) (simp_all split: if_splits)

lemma id_attribute_names_block:
  assumes "id_attribute t"
  shows "\<exists>xs ys. map lower t = xs @ ''pi-interview-data'' @ ys"
proof -
  from assms obtain q1 t1 where d: "drop 3 t = q1 # t1"
    and c: "ci_prefix ''pi-interview-data'' t1"
    by (auto simp: id_attribute_def split: list.splits)
  have l: "map lower ''pi-interview-data'' = ''pi-interview-data''"
    by code_simp
  have n: "length ''pi-interview-data'' = 17"
    by simp
  from c have "map lower (take (length ''pi-interview-data'') t1) =
               map lower ''pi-interview-data''"
    by (rule ci_prefix_take)
  then have "map lower (take 17 t1) = ''pi-interview-data''"
    by (simp only: l n)
  then have "map lower t1 = ''pi-interview-data'' @ map lower (drop 17 t1)"
    by (metis append_take_drop_id map_append)
  moreover have "t = take 3 t @ q1 # t1"
    using d by (metis append_take_drop_id)
  ultimately have "map lower t =
      (map lower (take 3 t) @ [lower q1]) @ ''pi-interview-data'' @ map lower (drop 17 t1)"
    by (metis append.assoc append_Cons append_Nil list.simps(9) map_append)
  then show ?thesis by blast
qed

lemma match_here_names_block:
  assumes "match_here s = Some g"
  shows "\<exists>xs ys. map lower s = xs @ ''pi-interview-data'' @ ys"
proof -
  define rest where "rest = drop 7 s"
  define tag where "tag = takeWhile (\<lambda>c. c \<noteq> CHR ''>'') rest"
  define after where "after = dropWhile (\<lambda>c. c \<noteq> CHR ''>'') rest"
  from assms have t: "tag \<noteq> []" and a: "somewhere id_attribute (tl tag)"
    by (auto simp: match_here_def Let_def rest_def tag_def after_def split: if_splits)
  from somewhere_suffix [OF a] obtain pre u where u: "tl tag = pre @ u" "id_attribute u"
    by blast
  from id_attribute_names_block [OF u(2)] obtain xs ys where
    m: "map lower u = xs @ ''pi-interview-data'' @ ys" by blast
  have "s = take 7 s @ rest" by (simp add: rest_def)
  moreover have "rest = tag @ after" by (simp add: tag_def after_def)
  moreover obtain c0 where "tag = c0 # pre @ u" using t u(1) by (cases tag) simp_all
  ultimately have "s = (take 7 s @ c0 # pre) @ u @ after" by simp
  then have "map lower s = map lower (take 7 s @ c0 # pre) @ map lower u @ map lower after"
    by (metis map_append)
  then have "map lower s =
      (map lower (take 7 s @ c0 # pre) @ xs) @ ''pi-interview-data'' @ (ys @ map lower after)"
    using m by simp
  then show ?thesis by blast
qed

lemma script_match_names_block:
  "script_match s = Some g \<Longrightarrow> str_includes (map lower s) ''pi-interview-data''"
proof (induction s)
  case Nil
  then show ?case
    using match_here_names_block [of "[]" g] by (simp add: str_includes_iff)
next
  case (Cons c cs)
  show ?case
  proof (cases "match_here (c # cs)")
    case None
    with Cons have "str_includes (map lower cs) ''pi-interview-data''" by simp
    then show ?thesis by simp
  next
    case (Some g')
    from match_here_names_block [OF this] show ?thesis
      by (simp only: str_includes_iff)
  qed
qed

text \<open>
  C6. A document in which the delimiter is not found fails with the message for a
  missing data block, and so in particular does every document that nowhere names
  \<^verbatim>\<open>pi-interview-data\<close>; a document whose data block \<^verbatim>\<open>JSON.parse\<close> rejects fails with
  the message for malformed JSON; the two errors differ.
\<close>

theorem decode_failures_distinguished:
  "(script_match html = None \<longrightarrow>
      loadSavedInterview N h html filePath =
        Inl (Error ''Invalid saved interview: missing embedded data'')) \<and>
   (\<not> str_includes (map lower html) ''pi-interview-data'' \<longrightarrow>
      loadSavedInterview N h html filePath =
        Inl (Error ''Invalid saved interview: missing embedded data'')) \<and>
   (\<forall>block. script_match html = Some block \<and> JSON_parse N block = None \<longrightarrow>
      loadSavedInterview N h html filePath =
        Inl (Error ''Invalid saved interview: malformed JSON'')) \<and>
   Error ''Invalid saved interview: missing embedded data'' \<noteq>
   Error ''Invalid saved interview: malformed JSON''"
proof -
  have "script_match html = None"
    if "\<not> str_includes (map lower html) ''pi-interview-data''"
    using that script_match_names_block [of html] by (cases "script_match html") auto
  then show ?thesis
    by (simp add: loadSavedInterview_def)
qed

subsection \<open>Two snapshot documents\<close>

lemma snapshot_decoded:
  "loadSavedInterview demo_node [] snapshot_html ''/snap/index.html'' =
     Inr (snapshot_loaded, snapshot_store)"
  by code_simp

text \<open>
  C4 fails on the code: the snapshot above embeds the answer \<^verbatim>\<open>hello\<close> to the text
  question \<^verbatim>\<open>q1\<close>, and decoding it gives \<^verbatim>\<open>/snap/hello\<close>: the decoder resolves
  every non-empty string answer as a path, whatever the type of its question.
\<close>

theorem text_answer_decoded_as_path:
  "as_ResponseItems snapshot_store (get snapshot_store (Ref 8) ''savedAnswers'') =
     Some [\<lparr>item_id = ''q1'', item_value = Text ''hello'', item_attachments = None\<rparr>,
           \<lparr>item_id = ''q2'',
             item_value = Items [''images/a.png'', ''https://x.org/b.png'', ''/abs/c.png''],
             item_attachments = None\<rparr>] \<and>
   (case loadSavedInterview demo_node [] snapshot_html ''/snap/index.html'' of
      Inl e \<Rightarrow> None
    | Inr (loaded, h') \<Rightarrow> as_ResponseItems h' (get h' loaded ''savedAnswers'')) =
     Some [\<lparr>item_id = ''q1'', item_value = Text ''/snap/hello'', item_attachments = None\<rparr>,
           \<lparr>item_id = ''q2'',
             item_value = Items [''/snap/images/a.png'', ''https://x.org/b.png'', ''/abs/c.png''],
             item_attachments = None\<rparr>]"
proof -
  have a: "as_ResponseItems snapshot_store (get snapshot_store (Ref 8) ''savedAnswers'') =
     Some [\<lparr>item_id = ''q1'', item_value = Text ''hello'', item_attachments = None\<rparr>,
           \<lparr>item_id = ''q2'',
             item_value = Items [''images/a.png'', ''https://x.org/b.png'', ''/abs/c.png''],
             item_attachments = None\<rparr>]"
    by code_simp
  have b: "as_ResponseItems snapshot_store (get snapshot_store snapshot_loaded ''savedAnswers'') =
     Some [\<lparr>item_id = ''q1'', item_value = Text ''/snap/hello'', item_attachments = None\<rparr>,
           \<lparr>item_id = ''q2'',
             item_value = Items [''/snap/images/a.png'', ''https://x.org/b.png'', ''/abs/c.png''],
             item_attachments = None\<rparr>]"
    by code_simp
  from a b show ?thesis
    by (simp only: snapshot_decoded sum.case prod.case simp_thms)
qed

theorem decoded_answers_follow_rule_witness:
  "script_match shots_html = Some shots_block \<and>
   JSON_parse shots_node shots_block = Some shots_data \<and>
   build shots_data [] = (Ref 5, shots_store) \<and>
   validateQuestions shots_store (Ref 5) = Inr (Ref 5, shots_store) \<and>
   as_ResponseItems shots_store (get shots_store (Ref 5) ''savedAnswers'') =
     Some [\<lparr>item_id = ''q1'', item_value = Text ''~/shots/a.png'',
            item_attachments = Some [''notes/b.png'', ''data:image/png;base64,AAAA'']\<rparr>] \<and>
   (\<exists>loaded h'.
      loadSavedInterview shots_node [] shots_html ''/snap/shots.html'' = Inr (loaded, h') \<and>
      as_ResponseItems h' (get h' loaded ''savedAnswers'') =
        Some [\<lparr>item_id = ''q1'', item_value = Text ''/home/u/shots/a.png'',
               item_attachments =
                 Some [''/snap/notes/b.png'', ''/snap/data:image/png;base64,AAAA'']\<rparr>])"
proof -
  have a: "script_match shots_html = Some shots_block" by code_simp
  have b: "JSON_parse shots_node shots_block = Some shots_data" by code_simp
  have c: "build shots_data [] = (Ref 5, shots_store)" by code_simp
  have d: "validateQuestions shots_store (Ref 5) = Inr (Ref 5, shots_store)" by code_simp
  have e: "as_ResponseItems shots_store (get shots_store (Ref 5) ''savedAnswers'') =
     Some [\<lparr>item_id = ''q1'', item_value = Text ''~/shots/a.png'',
            item_attachments = Some [''notes/b.png'', ''data:image/png;base64,AAAA'']\<rparr>]"
    by code_simp
  have f: "map (resolved_item shots_node (path_dirname shots_node ''/snap/shots.html''))
             [\<lparr>item_id = ''q1'', item_value = Text ''~/shots/a.png'',
               item_attachments = Some [''notes/b.png'', ''data:image/png;base64,AAAA'']\<rparr>] =
           [\<lparr>item_id = ''q1'', item_value = Text ''/home/u/shots/a.png'',
              item_attachments =
                Some [''/snap/notes/b.png'', ''/snap/data:image/png;base64,AAAA'']\<rparr>]"
    by code_simp
  from conjunct1 [OF decoded_answers_follow_rule [OF a b c d, of "''/snap/shots.html''"]] e
  have "\<exists>loaded h'.
      loadSavedInterview shots_node [] shots_html ''/snap/shots.html'' = Inr (loaded, h') \<and>
      as_ResponseItems h' (get h' loaded ''savedAnswers'') =
        Some (map (resolved_item shots_node (path_dirname shots_node ''/snap/shots.html''))
             [\<lparr>item_id = ''q1'', item_value = Text ''~/shots/a.png'',
               item_attachments = Some [''notes/b.png'', ''data:image/png;base64,AAAA'']\<rparr>])"
    by blast
  then have g: "\<exists>loaded h'.
      loadSavedInterview shots_node [] shots_html ''/snap/shots.html'' = Inr (loaded, h') \<and>
      as_ResponseItems h' (get h' loaded ''savedAnswers'') =
        Some [\<lparr>item_id = ''q1'', item_value = Text ''/home/u/shots/a.png'',
               item_attachments =
                 Some [''/snap/notes/b.png'', ''/snap/data:image/png;base64,AAAA'']\<rparr>]"
    unfolding f .
  from a b c d e g show ?thesis by blast
qed

theorem decode_failures_distinguished_witness:
  "script_match plain_html = None \<and>
   loadSavedInterview demo_node [] plain_html ''/snap/plain.html'' =
     Inl (Error ''Invalid saved interview: missing embedded data'') \<and>
   script_match broken_html = Some ''{\"questions\":['' \<and>
   JSON_parse demo_node ''{\"questions\":['' = None \<and>
   loadSavedInterview demo_node [] broken_html ''/snap/broken.html'' =
     Inl (Error ''Invalid saved interview: malformed JSON'')"
proof -
  have a: "script_match plain_html = None" by code_simp
  have b: "script_match broken_html = Some ''{\"questions\":[''" by code_simp
  have c: "JSON_parse demo_node ''{\"questions\":['' = None" by code_simp
  from conjunct1 [OF decode_failures_distinguished
      [of plain_html demo_node "[]" "''/snap/plain.html''"]] a
  have d: "loadSavedInterview demo_node [] plain_html ''/snap/plain.html'' =
     Inl (Error ''Invalid saved interview: missing embedded data'')"
    by blast
  from conjunct1 [OF conjunct2 [OF conjunct2 [OF decode_failures_distinguished
      [of broken_html demo_node "[]" "''/snap/broken.html''"]]]] b c
  have e: "loadSavedInterview demo_node [] broken_html ''/snap/broken.html'' =
     Inl (Error ''Invalid saved interview: malformed JSON'')"
    by blast
  from a b c d e show ?thesis by blast
qed

section \<open>Properties of lib.ts: the promise returned by interview()\<close>

subsection \<open>Sticky terminal states\<close>

lemma finish_resolved: "resolved st \<Longrightarrow> finish st s rs = st"
  by (simp add: finish_def)

lemma cleanup_resolved: "resolved (cleanup st) = resolved st"
  by (simp add: cleanup_def split: option.split)

lemma cleanup_settle_calls: "settle_calls (cleanup st) = settle_calls st"
  by (simp add: cleanup_def split: option.split)

lemma cleanup_url: "url (cleanup st) = url st"
  by (simp add: cleanup_def split: option.split)

lemma cleanup_abort_listener: "abort_listener (cleanup st) = abort_listener st"
  by (simp add: cleanup_def split: option.split)

lemma finish_sets_resolved: "resolved (finish st s rs)"
  by (simp add: finish_def Let_def resolve_def cleanup_resolved)

lemma finish_removes_listener: "\<not> resolved st \<Longrightarrow> \<not> abort_listener (finish st s rs)"
  by (simp add: finish_def Let_def resolve_def cleanup_abort_listener)

lemma finish_settle_calls:
  "\<not> resolved st \<Longrightarrow>
   settle_calls (finish st s rs) =
     settle_calls st @ [Inr \<lparr>status = s, responses = rs, result_url = url st\<rparr>]"
  by (simp add: finish_def Let_def resolve_def cleanup_settle_calls cleanup_url)

lemma fire_resolved:
  "resolved st \<Longrightarrow> \<not> abort_listener st \<Longrightarrow> fire st t = st"
  by (cases t) (simp_all add: onSubmit_def onCancel_def finish_resolved)

lemma fire_first:
  "\<not> resolved st \<Longrightarrow> reaches_finish st t \<Longrightarrow>
   resolved (fire st t) \<and> \<not> abort_listener (fire st t) \<and>
   settle_calls (fire st t) =
     settle_calls st @
       [Inr \<lparr>status = fst (requested t), responses = snd (requested t), result_url = url st\<rparr>]"
  by (cases t)
     (simp_all add: onSubmit_def onCancel_def handleAbort_def reaches_finish_def
        finish_sets_resolved finish_removes_listener finish_settle_calls)

lemma url_pending: "url (pending b) = []"
  by (simp add: pending_def)

lemma run_resolved:
  "resolved st \<Longrightarrow> \<not> abort_listener st \<Longrightarrow> run st ts = st"
  by (induction ts) (simp_all add: run_def fire_resolved)

text \<open>
  C1. Whatever terminal-triggering events reach a session, and in whatever order, the
  first one settles it: it makes the one and only call of \<open>resolve\<close>, with the status
  and responses that event asked for, and every later event leaves the whole state as
  it was (it returns normally and changes nothing).
\<close>

theorem first_terminal_transition_wins:
  assumes "\<not> resolved st" and "settle_calls st = []" and "reaches_finish st t"
  shows "run st (t # ts) = fire st t \<and>
         settle_calls (run st (t # ts)) =
           [Inr \<lparr>status = fst (requested t), responses = snd (requested t),
                 result_url = url st\<rparr>] \<and>
         (\<forall>t'. fire (run st (t # ts)) t' = run st (t # ts))"
proof -
  from fire_first [OF assms(1) assms(3)]
  have r: "resolved (fire st t)" and l: "\<not> abort_listener (fire st t)"
    and s: "settle_calls (fire st t) =
              [Inr \<lparr>status = fst (requested t), responses = snd (requested t),
                    result_url = url st\<rparr>]"
    using assms(2) by simp_all
  have "run st (t # ts) = run (fire st t) ts"
    by (simp add: run_def)
  then have e: "run st (t # ts) = fire st t"
    using run_resolved [OF r l] by simp
  show ?thesis
    using e s fire_resolved [OF r l] by simp
qed

theorem first_terminal_transition_wins_witness:
  "\<not> resolved (pending True) \<and> settle_calls (pending True) = [] \<and>
   reaches_finish (pending True) (Cancel (Some ''timeout'') None) \<and>
   settle_calls (run (pending True)
     [Cancel (Some ''timeout'') None, Submit [], SignalAbort, Cancel None None]) =
   [Inr \<lparr>status = Timeout, responses = [], result_url = []\<rparr>]"
proof -
  have a: "\<not> resolved (pending True)" and b: "settle_calls (pending True) = []"
    and c: "reaches_finish (pending True) (Cancel (Some ''timeout'') None)"
    by (simp_all add: pending_def reaches_finish_def)
  note w = first_terminal_transition_wins
      [OF a b c, of "[Submit [], SignalAbort, Cancel None None]"]
  have "settle_calls (run (pending True)
     [Cancel (Some ''timeout'') None, Submit [], SignalAbort, Cancel None None]) =
   [Inr \<lparr>status = Timeout, responses = [], result_url = []\<rparr>]"
    using conjunct1 [OF conjunct2 [OF w]] by (simp add: orEmpty_def url_pending)
  with a b c show ?thesis by simp
qed

subsection \<open>What a terminal outcome carries\<close>

lemma outcome_finish:
  "\<not> resolved st \<Longrightarrow> settle_calls st = [] \<Longrightarrow>
   outcome (finish st s rs) = Some \<lparr>status = s, responses = rs, result_url = url st\<rparr>"
  by (simp add: outcome_def promise_def finish_settle_calls)

text \<open>
  C3, as stated, fails: a session that holds one recorded answer and is aborted by the
  caller's signal resolves with an empty response list.
\<close>

theorem abort_drops_recorded_answers:
  "outcome (lib (signal_abort
     \<lparr>lib = pending True,
      recorded = [\<lparr>item_id = ''q1'', item_value = Text ''A'', item_attachments = None\<rparr>]\<rparr>)) =
   Some \<lparr>status = Aborted, responses = [], result_url = []\<rparr> \<and>
   Some (recorded (signal_abort
     \<lparr>lib = pending True,
      recorded = [\<lparr>item_id = ''q1'', item_value = Text ''A'', item_attachments = None\<rparr>]\<rparr>)) \<noteq>
   map_option responses (outcome (lib (signal_abort
     \<lparr>lib = pending True,
      recorded = [\<lparr>item_id = ''q1'', item_value = Text ''A'', item_attachments = None\<rparr>]\<rparr>)))"
proof -
  have "outcome (fire (pending True) SignalAbort) =
        Some \<lparr>status = Aborted, responses = [], result_url = []\<rparr>"
    by (simp add: pending_def handleAbort_def outcome_finish)
  then show ?thesis
    by (simp add: signal_abort_def)
qed

text \<open>
  C3, amended. A terminal outcome carries the responses handed to \<open>finish\<close> when the
  transition fired: completed carries the submitted answers, timeout and cancelled
  carry the partial answers the server passed to \<open>onCancel\<close> (the empty list when it
  passed none), and aborted carries the empty list.
\<close>

theorem terminal_outcome_carries_handed_responses:
  assumes "\<not> resolved st" and "settle_calls st = []"
  shows "outcome (onSubmit st rs) =
           Some \<lparr>status = Completed, responses = rs, result_url = url st\<rparr> \<and>
         outcome (onCancel st (Some ''timeout'') p) =
           Some \<lparr>status = Timeout, responses = orEmpty p, result_url = url st\<rparr> \<and>
         (reason \<noteq> Some ''timeout'' \<longrightarrow>
            outcome (onCancel st reason p) =
              Some \<lparr>status = Cancelled, responses = orEmpty p, result_url = url st\<rparr>) \<and>
         outcome (handleAbort st) =
           Some \<lparr>status = Aborted, responses = [], result_url = url st\<rparr>"
  using assms by (simp add: onSubmit_def onCancel_def handleAbort_def outcome_finish)

theorem terminal_outcome_carries_handed_responses_witness:
  "\<not> resolved (pending True) \<and> settle_calls (pending True) = [] \<and>
   Some ''user'' \<noteq> Some ''timeout'' \<and>
   outcome (onCancel (pending True) (Some ''user'')
     (Some [\<lparr>item_id = ''q1'', item_value = Text ''A'', item_attachments = None\<rparr>])) =
   Some \<lparr>status = Cancelled,
         responses = [\<lparr>item_id = ''q1'', item_value = Text ''A'', item_attachments = None\<rparr>],
         result_url = []\<rparr>"
proof -
  have a: "\<not> resolved (pending True)" and b: "settle_calls (pending True) = []"
    by (simp_all add: pending_def)
  note w = terminal_outcome_carries_handed_responses
    [OF a b, of _ "Some [\<lparr>item_id = ''q1'', item_value = Text ''A'', item_attachments = None\<rparr>]"
       "Some ''user''"]
  have "outcome (onCancel (pending True) (Some ''user'')
     (Some [\<lparr>item_id = ''q1'', item_value = Text ''A'', item_attachments = None\<rparr>])) =
   Some \<lparr>status = Cancelled,
         responses = [\<lparr>item_id = ''q1'', item_value = Text ''A'', item_attachments = None\<rparr>],
         result_url = []\<rparr>"
    using conjunct1 [OF conjunct2 [OF conjunct2 [OF w]]]
    by (simp add: orEmpty_def url_pending)
  with a b show ?thesis by simp
qed

section \<open>Properties of lib.ts: starting an interview\<close>

subsection \<open>Caller-contract errors\<close>

text \<open>
  C8, as stated, fails: with valid questions and a signal that is already aborted the
  call does not report an error; it returns the result \<^verbatim>\<open>aborted\<close> with no responses
  and an empty URL.
\<close>

theorem aborted_signal_is_not_an_error:
  "interview demo_node two_questions
     (no_options\<lparr>opt_questions := Ref 0, opt_signal := Some True\<rparr>) ''sid'' ''tok'' =
   Returned \<lparr>status = Aborted, responses = [], result_url = []\<rparr>"
  by code_simp

text \<open>
  C8, amended. Without a question source the promise the call returns is already
  rejected with the error \<^verbatim>\<open>Either questions or questionsPath is required\<close>. With a
  signal that is already aborted the question source is read first: when the caller
  gave questions and they do not validate, the promise is rejected with the error of the
  validation, and when they validate it is fulfilled with the result \<^verbatim>\<open>aborted\<close>, no
  responses and an empty URL; when the caller gave a path instead, the promise is
  rejected with the error of loading the file, and fulfilled with that same result when
  the file loads. In none of these cases does the call reach
  \<^verbatim>\<open>startInterviewServer\<close>, so no listener is opened.
\<close>

theorem start_without_listener:
  "(\<not> truthy (opt_questions options) \<and>
    (opt_questionsPath options = None \<or> opt_questionsPath options = Some []) \<longrightarrow>
      interview N h options sessionId sessionToken =
        Rejected (Error ''Either questions or questionsPath is required'')) \<and>
   (opt_signal options = Some True \<longrightarrow>
      (truthy (opt_questions options) \<longrightarrow>
         (\<forall>e. validateQuestions h (opt_questions options) = Inl e \<longrightarrow>
            interview N h options sessionId sessionToken = Rejected (Schema e)) \<and>
         (\<forall>q h'. validateQuestions h (opt_questions options) = Inr (q, h') \<longrightarrow>
            interview N h options sessionId sessionToken =
              Returned \<lparr>status = Aborted, responses = [], result_url = []\<rparr>)) \<and>
      (\<not> truthy (opt_questions options) \<longrightarrow>
         (\<forall>p. opt_questionsPath options = Some p \<and> p \<noteq> [] \<longrightarrow>
            (\<forall>e. loadQuestions N h p
                    (case opt_cwd options of None \<Rightarrow> process_cwd N | Some c \<Rightarrow> c) = Inl e \<longrightarrow>
               interview N h options sessionId sessionToken = Rejected e) \<and>
            (\<forall>l h'. loadQuestions N h p
                    (case opt_cwd options of None \<Rightarrow> process_cwd N | Some c \<Rightarrow> c) =
                      Inr (l, h') \<longrightarrow>
               interview N h options sessionId sessionToken =
                 Returned \<lparr>status = Aborted, responses = [], result_url = []\<rparr>))) \<and>
      (\<forall>st so h'. interview N h options sessionId sessionToken \<noteq> Starting st so h'))"
  by (auto simp: interview_def Let_def split: sum.splits option.splits list.splits prod.splits)

theorem start_without_listener_witness:
  "\<not> truthy (opt_questions no_options) \<and> opt_questionsPath no_options = None \<and>
   interview demo_node [] no_options ''sid'' ''tok'' =
     Rejected (Error ''Either questions or questionsPath is required'') \<and>
   validateQuestions [Object [(''questions'', Ref 1)], Array []] (Ref 0) =
     Inl QuestionsNotNonEmptyArray \<and>
   interview demo_node [Object [(''questions'', Ref 1)], Array []]
     (no_options\<lparr>opt_questions := Ref 0, opt_signal := Some True\<rparr>) ''sid'' ''tok'' =
     Rejected (Schema QuestionsNotNonEmptyArray) \<and>
   loadQuestions demo_node [] ''/snap/index.html'' ''/work'' =
     Inr (snapshot_loaded, snapshot_store) \<and>
   interview demo_node []
     (no_options\<lparr>opt_questionsPath := Some ''/snap/index.html'', opt_signal := Some True\<rparr>)
     ''sid'' ''tok'' =
     Returned \<lparr>status = Aborted, responses = [], result_url = []\<rparr>"
proof -
  have a: "\<not> truthy (opt_questions no_options)" and b: "opt_questionsPath no_options = None"
    by (simp_all add: no_options_def)
  from conjunct1 [OF start_without_listener [of no_options demo_node "[]" "''sid''" "''tok''"]] a b
  have c: "interview demo_node [] no_options ''sid'' ''tok'' =
     Rejected (Error ''Either questions or questionsPath is required'')"
    by blast
  let ?bad = "[Object [(''questions'', Ref 1)], Array []]"
  let ?i = "no_options\<lparr>opt_questions := Ref 0, opt_signal := Some True\<rparr>"
  have d: "validateQuestions ?bad (Ref 0) = Inl QuestionsNotNonEmptyArray"
    by code_simp
  have di: "opt_signal ?i = Some True" "truthy (opt_questions ?i)" "opt_questions ?i = Ref 0"
    by simp_all
  from conjunct2 [OF start_without_listener [of ?i demo_node ?bad "''sid''" "''tok''"]] d di
  have e: "interview demo_node ?bad ?i ''sid'' ''tok'' = Rejected (Schema QuestionsNotNonEmptyArray)"
    by simp
  let ?o = "no_options\<lparr>opt_questionsPath := Some ''/snap/index.html'', opt_signal := Some True\<rparr>"
  have f: "loadQuestions demo_node [] ''/snap/index.html'' ''/work'' =
          Inr (snapshot_loaded, snapshot_store)"
    using snapshot_decoded by code_simp
  have fo: "opt_signal ?o = Some True" "\<not> truthy (opt_questions ?o)"
    "opt_questionsPath ?o = Some ''/snap/index.html''" "opt_cwd ?o = None"
    "process_cwd demo_node = ''/work''"
    by (simp_all add: no_options_def demo_node_def posix_def)
  from conjunct2 [OF start_without_listener [of ?o demo_node "[]" "''sid''" "''tok''"]] f fo
  have g: "interview demo_node [] ?o ''sid'' ''tok'' =
     Returned \<lparr>status = Aborted, responses = [], result_url = []\<rparr>"
    by simp
  from a b c d e f g show ?thesis by blast
qed

subsection \<open>A concurrent session\<close>

lemma on_started_queued:
  assumes "\<not> resolved st"
    and "filter (\<lambda>s. as_id s \<noteq> sessionId) activeSessions = active # others"
  shows "on_started options sessionId st handle activeSessions openFailure =
           st\<lparr>server := Some handle, url := handle_url handle,
              trace := trace st @
                (if opt_onReady options then [CallOnReady (handle_url handle)] else []) @
                (if opt_onQueued options
                 then [CallOnQueued
                         \<lparr>existingSession =
                            \<lparr>es_id = as_id active, es_title = as_title active,
                             es_cwd = as_cwd active, es_gitBranch = as_gitBranch active,
                             es_startedAt = as_startedAt active\<rparr>,
                          queued_url = handle_url handle\<rparr>]
                 else [])\<rparr>"
  using assms by (auto simp: on_started_def Let_def)

text \<open>
  C7, as stated, fails twice. A caller who gave no \<^verbatim>\<open>onQueued\<close> callback is told
  nothing: with the first session in the registry, the start of the second leaves an
  empty trace. And a session that has ended before its listener comes up, here by the
  caller's abort signal, reports nothing either and closes the listener that has just
  come up, so it does not remain reachable.
\<close>

theorem queued_session_is_not_always_reported:
  "filter (\<lambda>s. as_id s \<noteq> ''second'') [second_session, first_session] = [first_session] \<and>
   trace (on_started no_options ''second'' (pending False)
            \<lparr>handle_url = ''http://localhost:4712/?session=tok''\<rparr>
            [second_session, first_session] None) = [] \<and>
   resolved (handleAbort (pending True)) \<and>
   listener_up (no_options\<lparr>opt_onReady := True, opt_onQueued := True\<rparr>) ''second''
     \<lparr>handle_url = ''http://localhost:4712/?session=tok''\<rparr>
     [second_session, first_session] None
     (\<lparr>listeners = [\<lparr>handle_url = ''http://localhost:4711/?session=one''\<rparr>], tabs = []\<rparr>,
      handleAbort (pending True)) =
   (\<lparr>listeners = [\<lparr>handle_url = ''http://localhost:4711/?session=one''\<rparr>], tabs = []\<rparr>,
    (handleAbort (pending True))
      \<lparr>trace := [Close \<lparr>handle_url = ''http://localhost:4712/?session=tok''\<rparr>]\<rparr>)"
  by code_simp

text \<open>
  C7, amended. When the listener has come up for a session that is still unresolved and
  the registry shows an entry of another session, the handler reports the first such
  entry (id, title, working directory, branch and start time) together with the new
  session's own URL through the caller's \<^verbatim>\<open>onQueued\<close> callback, when the caller gave
  one, and does nothing else after \<^verbatim>\<open>onReady\<close>. No browser tab is opened, every
  listener that was bound stays bound, the new listener among them, and the new session
  keeps its handle and is left unsettled.
\<close>

theorem concurrent_session_is_queued:
  assumes "\<not> resolved st"
    and "filter (\<lambda>s. as_id s \<noteq> sessionId) activeSessions = active # others"
  shows "listener_up options sessionId handle activeSessions openFailure (w, st) =
           (w\<lparr>listeners := listeners w @ [handle]\<rparr>,
            st\<lparr>server := Some handle, url := handle_url handle,
               trace := trace st @
                 (if opt_onReady options then [CallOnReady (handle_url handle)] else []) @
                 (if opt_onQueued options
                  then [CallOnQueued
                          \<lparr>existingSession =
                             \<lparr>es_id = as_id active, es_title = as_title active,
                              es_cwd = as_cwd active, es_gitBranch = as_gitBranch active,
                              es_startedAt = as_startedAt active\<rparr>,
                           queued_url = handle_url handle\<rparr>]
                  else [])\<rparr>) \<and>
         tabs (fst (listener_up options sessionId handle activeSessions openFailure (w, st))) =
           tabs w \<and>
         set (listeners
                (fst (listener_up options sessionId handle activeSessions openFailure (w, st)))) =
           set (listeners w) \<union> {handle} \<and>
         server (snd (listener_up options sessionId handle activeSessions openFailure (w, st))) =
           Some handle \<and>
         \<not> resolved
             (snd (listener_up options sessionId handle activeSessions openFailure (w, st))) \<and>
         settle_calls
             (snd (listener_up options sessionId handle activeSessions openFailure (w, st))) =
           settle_calls st"
proof -
  have "listener_up options sessionId handle activeSessions openFailure (w, st) =
           (w\<lparr>listeners := listeners w @ [handle]\<rparr>,
            st\<lparr>server := Some handle, url := handle_url handle,
               trace := trace st @
                 (if opt_onReady options then [CallOnReady (handle_url handle)] else []) @
                 (if opt_onQueued options
                  then [CallOnQueued
                          \<lparr>existingSession =
                             \<lparr>es_id = as_id active, es_title = as_title active,
                              es_cwd = as_cwd active, es_gitBranch = as_gitBranch active,
                              es_startedAt = as_startedAt active\<rparr>,
                           queued_url = handle_url handle\<rparr>]
                  else [])\<rparr>)"
    by (simp add: listener_up_def Let_def on_started_queued [OF assms])
  then show ?thesis using assms(1) by simp
qed

theorem concurrent_session_is_queued_witness:
  "\<not> resolved (pending True) \<and>
   filter (\<lambda>s. as_id s \<noteq> ''second'') [second_session, first_session] = first_session # [] \<and>
   listener_up (no_options\<lparr>opt_onReady := True, opt_onQueued := True\<rparr>) ''second''
     \<lparr>handle_url = ''http://localhost:4712/?session=tok''\<rparr>
     [second_session, first_session] None
     (\<lparr>listeners = [\<lparr>handle_url = ''http://localhost:4711/?session=one''\<rparr>],
        tabs = [(''http://localhost:4711/?session=one'', None)]\<rparr>,
      pending True) =
   (\<lparr>listeners = [\<lparr>handle_url = ''http://localhost:4711/?session=one''\<rparr>,
                  \<lparr>handle_url = ''http://localhost:4712/?session=tok''\<rparr>],
      tabs = [(''http://localhost:4711/?session=one'', None)]\<rparr>,
    \<lparr>server = Some \<lparr>handle_url = ''http://localhost:4712/?session=tok''\<rparr>,
      resolved = False, url = ''http://localhost:4712/?session=tok'', abort_listener = True,
      settle_calls = [],
      trace =
        [CallOnReady ''http://localhost:4712/?session=tok'',
         CallOnQueued
           \<lparr>existingSession =
              \<lparr>es_id = ''first'', es_title = ''Project Setup'', es_cwd = ''/work'',
               es_gitBranch = Some ''main'', es_startedAt = 1771236000000\<rparr>,
            queued_url = ''http://localhost:4712/?session=tok''\<rparr>]\<rparr>)"
proof -
  have a: "\<not> resolved (pending True)"
    by (simp add: pending_def)
  have b: "filter (\<lambda>s. as_id s \<noteq> ''second'') [second_session, first_session] =
           first_session # []"
    by (simp add: first_session_def second_session_def)
  note t = conjunct1 [OF concurrent_session_is_queued [OF a b,
      of "no_options\<lparr>opt_onReady := True, opt_onQueued := True\<rparr>"
         "\<lparr>handle_url = ''http://localhost:4712/?session=tok''\<rparr>" None
         "\<lparr>listeners = [\<lparr>handle_url = ''http://localhost:4711/?session=one''\<rparr>],
            tabs = [(''http://localhost:4711/?session=one'', None)]\<rparr>"]]
  have "listener_up (no_options\<lparr>opt_onReady := True, opt_onQueued := True\<rparr>) ''second''
     \<lparr>handle_url = ''http://localhost:4712/?session=tok''\<rparr>
     [second_session, first_session] None
     (\<lparr>listeners = [\<lparr>handle_url = ''http://localhost:4711/?session=one''\<rparr>],
        tabs = [(''http://localhost:4711/?session=one'', None)]\<rparr>,
      pending True) =
   (\<lparr>listeners = [\<lparr>handle_url = ''http://localhost:4711/?session=one''\<rparr>,
                  \<lparr>handle_url = ''http://localhost:4712/?session=tok''\<rparr>],
      tabs = [(''http://localhost:4711/?session=one'', None)]\<rparr>,
    \<lparr>server = Some \<lparr>handle_url = ''http://localhost:4712/?session=tok''\<rparr>,
      resolved = False, url = ''http://localhost:4712/?session=tok'', abort_listener = True,
      settle_calls = [],
      trace =
        [CallOnReady ''http://localhost:4712/?session=tok'',
         CallOnQueued
           \<lparr>existingSession =
              \<lparr>es_id = ''first'', es_title = ''Project Setup'', es_cwd = ''/work'',
               es_gitBranch = Some ''main'', es_startedAt = 1771236000000\<rparr>,
            queued_url = ''http://localhost:4712/?session=tok''\<rparr>]\<rparr>)"
    unfolding t by (simp add: pending_def first_session_def)
  with a b show ?thesis by blast
qed

section \<open>Properties of the session server (server.ts, not among the sources)\<close>

subsection \<open>The capability token gates every route\<close>

text \<open>
  C2. A request whose token is missing or differs from the session's token is answered
  with access denied and leaves the whole session (state, answers, heartbeat timestamp
  and everything else) as it was, whatever route and payload it carries: no validation
  of the payload is reached.
\<close>

theorem bad_token_is_denied_without_mutation:
  assumes "token_param req \<noteq> Some (session_token s)"
  shows "handle_request now s req = (AccessDenied, s)"
  using assms by (simp add: handle_request_def)

theorem bad_token_is_denied_without_mutation_witness:
  "token_param \<lparr>token_param = Some ''bad-token'', route = SubmitAnswers []\<rparr> \<noteq>
     Some (session_token
       \<lparr>session_id = ''s1'', session_token = ''t0k'', required = [''q1''], answers = [],
        timeout_seconds = 60, startedAt = 0, lastHeartbeat = 0, state = Active\<rparr>) \<and>
   handle_request 5
     \<lparr>session_id = ''s1'', session_token = ''t0k'', required = [''q1''], answers = [],
      timeout_seconds = 60, startedAt = 0, lastHeartbeat = 0, state = Active\<rparr>
     \<lparr>token_param = Some ''bad-token'', route = SubmitAnswers []\<rparr> =
   (AccessDenied,
     \<lparr>session_id = ''s1'', session_token = ''t0k'', required = [''q1''], answers = [],
      timeout_seconds = 60, startedAt = 0, lastHeartbeat = 0, state = Active\<rparr>)"
proof -
  have a: "token_param \<lparr>token_param = Some ''bad-token'', route = SubmitAnswers []\<rparr> \<noteq>
     Some (session_token
       \<lparr>session_id = ''s1'', session_token = ''t0k'', required = [''q1''], answers = [],
        timeout_seconds = 60, startedAt = 0, lastHeartbeat = 0, state = Active\<rparr>)"
    by simp
  from bad_token_is_denied_without_mutation [OF a, of 5] a show ?thesis
    by blast
qed

subsection \<open>No timeout without a browser\<close>

lemma clock_listening: "state s = Listening \<Longrightarrow> clock now s = s"
  by (simp add: clock_def)

lemma clock_terminal: "state s = Terminal st \<Longrightarrow> clock now s = s"
  by (simp add: clock_def)

lemma withdraw_terminal: "state s = Terminal st \<Longrightarrow> withdraw s = s"
  by (simp add: withdraw_def)

lemma withdraw_listening: "state s = Listening \<Longrightarrow> state (withdraw s) = Terminal Aborted"
  by (simp add: withdraw_def)

lemma run_aborted:
  "state s = Terminal Aborted \<Longrightarrow> \<forall>e \<in> set es. \<not> is_request e \<Longrightarrow>
   state (session_run s es) = Terminal Aborted"
proof (induction es arbitrary: s)
  case Nil
  then show ?case by (simp add: session_run_def)
next
  case (Cons e es)
  from Cons.prems have "session_step s e = s"
    by (cases e) (simp_all add: clock_terminal withdraw_terminal)
  with Cons show ?case by (simp add: session_run_def)
qed

lemma quiet_session_run:
  assumes "state s = Listening" and "\<forall>e \<in> set es. \<not> is_request e"
  shows "state (session_run s es) =
           (if Withdraw \<in> set es then Terminal Aborted else Listening)"
  using assms
proof (induction es arbitrary: s)
  case Nil
  then show ?case by (simp add: session_run_def)
next
  case (Cons e es)
  show ?case
  proof (cases e)
    case (Request now req)
    with Cons.prems show ?thesis by simp
  next
    case (Clock now)
    with Cons.prems have "session_step s e = s"
      by (simp add: clock_listening)
    with Cons Clock show ?thesis by (simp add: session_run_def)
  next
    case Withdraw
    with Cons.prems have "state (session_step s e) = Terminal Aborted"
      by (simp add: withdraw_listening)
    from run_aborted [OF this] Cons.prems Withdraw show ?thesis
      by (simp add: session_run_def)
  qed
qed

lemma timeout_only_by_cancel_request:
  assumes "state s = Listening" and "state (session_step s e) = Terminal Timeout"
  shows "\<exists>now req. e = Request now req \<and> token_param req = Some (session_token s) \<and>
           route req = CancelSession (Some ReasonTimeout)"
proof (cases e)
  case (Request now req)
  with assms show ?thesis
    by (cases "route req")
       (auto simp: handle_request_def dispatch_def connect_def split: if_splits)
next
  case (Clock now)
  with assms show ?thesis by (simp add: clock_listening)
next
  case Withdraw
  with assms show ?thesis by (simp add: withdraw_def)
qed

text \<open>
  C9. Whatever timeout was configured, a listening session that no request ever
  reaches stays listening however much time passes; it leaves that state only when the
  owning process withdraws it, and then it is aborted, never timed out. The one step
  that takes a listening session to timed out is a cancel request with reason timeout
  bearing the session's token.
\<close>

theorem no_timeout_without_browser:
  assumes "state s = Listening" and "\<forall>e \<in> set es. \<not> is_request e"
  shows "state (session_run s es) =
           (if Withdraw \<in> set es then Terminal Aborted else Listening) \<and>
         (\<forall>e. state (session_step s e) = Terminal Timeout \<longrightarrow>
            (\<exists>now req. e = Request now req \<and> token_param req = Some (session_token s) \<and>
               route req = CancelSession (Some ReasonTimeout)))"
  using quiet_session_run [OF assms] timeout_only_by_cancel_request [OF assms(1)]
  by blast

theorem no_timeout_without_browser_witness:
  "state \<lparr>session_id = ''s1'', session_token = ''t0k'', required = [''q1''], answers = [],
      timeout_seconds = 1, startedAt = 0, lastHeartbeat = 0, state = Listening\<rparr> = Listening \<and>
   \<not> is_request (Clock 1) \<and> \<not> is_request (Clock 2) \<and> \<not> is_request (Clock 100000) \<and>
   state (session_run
     \<lparr>session_id = ''s1'', session_token = ''t0k'', required = [''q1''], answers = [],
      timeout_seconds = 1, startedAt = 0, lastHeartbeat = 0, state = Listening\<rparr>
     [Clock 1, Clock 2, Clock 100000]) = Listening"
proof -
  have a: "state \<lparr>session_id = ''s1'', session_token = ''t0k'', required = [''q1''],
      answers = [], timeout_seconds = 1, startedAt = 0, lastHeartbeat = 0,
      state = Listening\<rparr> = Listening"
    by simp
  have b: "\<forall>e \<in> set [Clock 1, Clock 2, Clock 100000]. \<not> is_request e"
    by simp
  from conjunct1 [OF no_timeout_without_browser [OF a b]] a b show ?thesis
    by simp
qed

end
